theory Spec2Isabelle
  imports Complex_Main "HOL-Library.Log_Nat" "HOL-Library.Sublist"
begin

section \<open>JavaScript numbers\<close>

text \<open>
  Every metric of the dashboard is a JavaScript Number: an IEEE 754 double. A number is
  modelled as a finite value, \<open>NaN\<close> or one of the two infinities. The finite values are
  reals; each arithmetic operation computes the exact result and rounds it with
  \<open>to_double\<close> (53-bit significand, ties to even, gradual underflow, overflow to infinity),
  so \<open>1e16 + 1\<close> is \<open>1e16\<close> here as it is in the browser. The one thing left out is the
  sign of zero: \<open>-0\<close> and \<open>+0\<close> are the same \<open>Fin 0\<close>, which only changes the sign of an
  infinity obtained by dividing by \<open>-0\<close>.
\<close>

datatype jsnum = Fin real | NaN | PInf | NInf

definition pow2 :: "int \<Rightarrow> real" where
  "pow2 e = (if 0 \<le> e then 2 ^ nat e else 1 / 2 ^ nat (- e))"

text \<open>The binary exponent \<open>\<lfloor>log\<^sub>2 r\<rfloor>\<close> of a positive real, computed on integers.\<close>

definition exponent :: "real \<Rightarrow> int" where
  "exponent r = (if 1 \<le> r then bitlen \<lfloor>r\<rfloor> - 1 else - bitlen (\<lceil>1 / r\<rceil> - 1))"

definition round_half_even :: "real \<Rightarrow> int" where
  "round_half_even q =
     (let f = \<lfloor>q\<rfloor>; d = q - of_int f
      in if d < 1 / 2 then f else if 1 / 2 < d then f + 1
         else if even f then f else f + 1)"

definition to_double :: "real \<Rightarrow> jsnum" where
  "to_double r =
     (if r = 0 then Fin 0
      else let u = pow2 (max (exponent \<bar>r\<bar>) (- 1022) - 52);
               v = of_int (round_half_even (\<bar>r\<bar> / u)) * u
           in if 2 ^ 1024 \<le> v then (if r < 0 then NInf else PInf)
              else Fin (sgn r * v))"

text \<open>The sign of a number that is not \<open>NaN\<close>, as \<open>-1\<close>, \<open>0\<close> or \<open>1\<close>.\<close>

fun js_sign :: "jsnum \<Rightarrow> int" where
  "js_sign (Fin r) = (if r < 0 then - 1 else if r = 0 then 0 else 1)"
| "js_sign PInf = 1"
| "js_sign NInf = - 1"
| "js_sign NaN = 0"

definition signed_inf :: "int \<Rightarrow> jsnum" where
  "signed_inf s = (if s = 0 then NaN else if 0 < s then PInf else NInf)"

fun js_neg :: "jsnum \<Rightarrow> jsnum" where
  "js_neg (Fin r) = Fin (- r)"
| "js_neg PInf = NInf"
| "js_neg NInf = PInf"
| "js_neg NaN = NaN"

fun js_add :: "jsnum \<Rightarrow> jsnum \<Rightarrow> jsnum" where
  "js_add (Fin a) (Fin b) = to_double (a + b)"
| "js_add NaN _ = NaN"
| "js_add _ NaN = NaN"
| "js_add PInf NInf = NaN"
| "js_add NInf PInf = NaN"
| "js_add PInf _ = PInf"
| "js_add _ PInf = PInf"
| "js_add NInf _ = NInf"
| "js_add _ NInf = NInf"

definition js_sub :: "jsnum \<Rightarrow> jsnum \<Rightarrow> jsnum" where
  "js_sub a b = js_add a (js_neg b)"

fun js_mul :: "jsnum \<Rightarrow> jsnum \<Rightarrow> jsnum" where
  "js_mul (Fin a) (Fin b) = to_double (a * b)"
| "js_mul NaN _ = NaN"
| "js_mul _ NaN = NaN"
| "js_mul a b = signed_inf (js_sign a * js_sign b)"

fun js_div :: "jsnum \<Rightarrow> jsnum \<Rightarrow> jsnum" where
  "js_div (Fin a) (Fin b) =
     (if b = 0 then signed_inf (js_sign (Fin a)) else to_double (a / b))"
| "js_div NaN _ = NaN"
| "js_div _ NaN = NaN"
| "js_div (Fin a) _ = Fin 0"
| "js_div a (Fin b) = signed_inf (js_sign a * (if b < 0 then - 1 else 1))"
| "js_div _ _ = NaN"

text \<open>Comparisons: every comparison with \<open>NaN\<close> is false.\<close>

fun js_lt :: "jsnum \<Rightarrow> jsnum \<Rightarrow> bool" where
  "js_lt (Fin a) (Fin b) = (a < b)"
| "js_lt NaN _ = False"
| "js_lt _ NaN = False"
| "js_lt NInf b = (b \<noteq> NInf)"
| "js_lt a PInf = (a \<noteq> PInf)"
| "js_lt _ _ = False"

definition js_gt :: "jsnum \<Rightarrow> jsnum \<Rightarrow> bool" where
  "js_gt a b = js_lt b a"

definition js_ge :: "jsnum \<Rightarrow> jsnum \<Rightarrow> bool" where
  "js_ge a b = (a \<noteq> NaN \<and> b \<noteq> NaN \<and> \<not> js_lt a b)"

text \<open>\<open>ToBoolean\<close> on a number, and \<open>a || b\<close> on numbers.\<close>

definition truthy :: "jsnum \<Rightarrow> bool" where
  "truthy a = (a \<noteq> NaN \<and> a \<noteq> Fin 0)"

definition js_or :: "jsnum \<Rightarrow> jsnum \<Rightarrow> jsnum" where
  "js_or a b = (if truthy a then a else b)"

text \<open>
  \<open>Math.ceil\<close>, \<open>Math.floor\<close> and \<open>Math.round\<close> (ties towards \<open>+\<infinity>\<close>): the result is
  an integer of no larger magnitude class than the argument, hence exact.
\<close>

fun Math_ceil :: "jsnum \<Rightarrow> jsnum" where
  "Math_ceil (Fin r) = Fin (of_int \<lceil>r\<rceil>)"
| "Math_ceil a = a"

fun Math_floor :: "jsnum \<Rightarrow> jsnum" where
  "Math_floor (Fin r) = Fin (of_int \<lfloor>r\<rfloor>)"
| "Math_floor a = a"

fun Math_round :: "jsnum \<Rightarrow> jsnum" where
  "Math_round (Fin r) = Fin (of_int \<lfloor>r + 1 / 2\<rfloor>)"
| "Math_round a = a"


section \<open>Strings, \<open>parseFloat\<close> and \<open>toFixed\<close>\<close>

text \<open>
  A JavaScript string is a \<open>string\<close>: ASCII text character by character, any other
  character as its UTF-8 bytes (only ASCII white space is recognised).
  \<open>parseFloat\<close> skips leading white space, reads the longest prefix that is a
  \<open>StrDecimalLiteral\<close> (optional sign, then \<open>Infinity\<close> or digits with an optional
  fraction and exponent) and returns its value rounded to a double, or \<open>NaN\<close> when there
  is no such prefix.
\<close>

definition is_digit :: "char \<Rightarrow> bool" where
  "is_digit c = (c \<in> set ''0123456789'')"

definition is_upper :: "char \<Rightarrow> bool" where
  "is_upper c = (c \<in> set ''ABCDEFGHIJKLMNOPQRSTUVWXYZ'')"

definition is_lower :: "char \<Rightarrow> bool" where
  "is_lower c = (c \<in> set ''abcdefghijklmnopqrstuvwxyz'')"

definition is_space :: "char \<Rightarrow> bool" where
  "is_space c = ((of_char c :: nat) \<in> {9, 10, 11, 12, 13, 32})"

definition digit_val :: "char \<Rightarrow> nat" where
  "digit_val c = of_char c - 48"

definition digits_val :: "string \<Rightarrow> nat" where
  "digits_val ds = foldl (\<lambda>a c. 10 * a + digit_val c) 0 ds"

definition pow10 :: "int \<Rightarrow> real" where
  "pow10 e = (if 0 \<le> e then 10 ^ nat e else 1 / 10 ^ nat (- e))"

text \<open>The value of the \<open>ExponentPart\<close> at the head of a string, \<open>0\<close> when there is none.\<close>

definition exponent_part :: "string \<Rightarrow> int" where
  "exponent_part s =
     (case s of
        [] \<Rightarrow> 0
      | c # t \<Rightarrow>
          if c = CHR ''e'' \<or> c = CHR ''E'' then
            (case t of
               [] \<Rightarrow> 0
             | g # t' \<Rightarrow>
                 if g = CHR ''-'' then - int (digits_val (takeWhile is_digit t'))
                 else if g = CHR ''+'' then int (digits_val (takeWhile is_digit t'))
                 else int (digits_val (takeWhile is_digit t)))
          else 0)"

definition unsigned_decimal :: "string \<Rightarrow> jsnum" where
  "unsigned_decimal s =
     (if take 8 s = ''Infinity'' then PInf
      else
        let ip = takeWhile is_digit s;
            r1 = dropWhile is_digit s;
            dot = (r1 \<noteq> [] \<and> hd r1 = CHR ''.'');
            fp = (if dot then takeWhile is_digit (tl r1) else []);
            r2 = (if dot then dropWhile is_digit (tl r1) else r1)
        in if ip = [] \<and> fp = [] then NaN
           else to_double ((real (digits_val ip) + real (digits_val fp) / 10 ^ length fp)
                           * pow10 (exponent_part r2)))"

definition parseFloat :: "string \<Rightarrow> jsnum" where
  "parseFloat s =
     (case dropWhile is_space s of
        [] \<Rightarrow> NaN
      | c # t \<Rightarrow>
          if c = CHR ''-'' then js_neg (unsigned_decimal t)
          else if c = CHR ''+'' then unsigned_decimal t
          else unsigned_decimal (c # t))"

text \<open>\<open>s.replace(/c/g, '')\<close> for a single character \<open>c\<close>.\<close>

definition remove_all :: "char \<Rightarrow> string \<Rightarrow> string" where
  "remove_all c s = filter (\<lambda>x. x \<noteq> c) s"

text \<open>
  \<open>x.toFixed(f)\<close>. The decimal digits of a natural number, most significant first, are
  produced with fuel: a number \<open>n\<close> has at most \<open>n\<close> digits. For a finite
  \<open>\<bar>x\<bar> \<ge> 10\<^sup>2\<^sup>1\<close> JavaScript switches to the exponent notation of \<open>ToString\<close>; no
  dashboard reaches that range and the definition prints the plain digits there too.
\<close>

definition digit_char :: "nat \<Rightarrow> char" where
  "digit_char d = char_of (48 + d)"

fun digits_fuel :: "nat \<Rightarrow> nat \<Rightarrow> string \<Rightarrow> string" where
  "digits_fuel 0 n acc = acc"
| "digits_fuel (Suc k) n acc =
     (if n < 10 then digit_char n # acc
      else digits_fuel k (n div 10) (digit_char (n mod 10) # acc))"

definition nat_digits :: "nat \<Rightarrow> string" where
  "nat_digits n = digits_fuel (Suc n) n []"

definition fixed_digits :: "nat \<Rightarrow> real \<Rightarrow> string" where
  "fixed_digits f x =
     (let n = nat \<lfloor>x * 10 ^ f + 1 / 2\<rfloor>;
          m = nat_digits n;
          m' = replicate (Suc f - length m) CHR ''0'' @ m
      in if f = 0 then m
         else take (length m' - f) m' @ ''.'' @ drop (length m' - f) m')"

fun toFixed :: "nat \<Rightarrow> jsnum \<Rightarrow> string" where
  "toFixed f NaN = ''NaN''"
| "toFixed f PInf = ''Infinity''"
| "toFixed f NInf = ''-Infinity''"
| "toFixed f (Fin x) =
     (if x < 0 then ''-'' @ fixed_digits f (- x) else fixed_digits f x)"


section \<open>Sorting\<close>

text \<open>
  \<open>Array.prototype.sort(cmp)\<close> belongs to the language, which requires it to be stable.
  The comparator returns a number: positive when its first argument goes after the
  second; zero and \<open>NaN\<close> leave the pair as it is. For a comparator that orders the
  elements consistently, the result is the one stable arrangement, which insertion
  computes.
\<close>

fun insert_by :: "('a \<Rightarrow> 'a \<Rightarrow> jsnum) \<Rightarrow> 'a \<Rightarrow> 'a list \<Rightarrow> 'a list" where
  "insert_by cmp x [] = [x]"
| "insert_by cmp x (y # ys) =
     (if js_gt (cmp x y) (Fin 0) then y # insert_by cmp x ys else x # y # ys)"

definition js_sort :: "('a \<Rightarrow> 'a \<Rightarrow> jsnum) \<Rightarrow> 'a list \<Rightarrow> 'a list" where
  "js_sort cmp xs = foldr (insert_by cmp) xs []"

text \<open>\<open>xs.reduce((s, i) => s + f(i), 0)\<close>.\<close>

definition reduce_sum :: "('a \<Rightarrow> jsnum) \<Rightarrow> 'a list \<Rightarrow> jsnum" where
  "reduce_sum f xs = foldl (\<lambda>s i. js_add s (f i)) (Fin 0) xs"


section \<open>The long-layout dashboard\<close>

text \<open>
  The dashboard that expects one row per brand with named metric columns. A row is the
  object the CSV parser (or the demo generator) hands over: header to cell, in column
  order. A cell of a parsed CSV is a string; the demo generator also stores numbers.
\<close>

datatype cell = Str string | Num jsnum

type_synonym row = "(string \<times> cell) list"

fun cell_truthy :: "cell \<Rightarrow> bool" where
  "cell_truthy (Str s) = (s \<noteq> [])"
| "cell_truthy (Num n) = truthy n"

text \<open>\<open>row[k1] || row[k2] || ... || dflt\<close>.\<close>

fun first_truthy :: "row \<Rightarrow> string list \<Rightarrow> cell \<Rightarrow> cell" where
  "first_truthy r [] dflt = dflt"
| "first_truthy r (k # ks) dflt =
     (case map_of r k of
        None \<Rightarrow> first_truthy r ks dflt
      | Some c \<Rightarrow> if cell_truthy c then c else first_truthy r ks dflt)"

text \<open>
  The helper \<open>num\<close> of \<open>processData\<close>. \<open>parseFloat\<close> of a number converts it to a string
  and back, which returns the number.
\<close>

definition num :: "row \<Rightarrow> string \<Rightarrow> jsnum" where
  "num r key =
     (case first_truthy r [key] (Str ''0'') of
        Str s \<Rightarrow> js_or (parseFloat (remove_all CHR ''%'' (remove_all CHR '','' s))) (Fin 0)
      | Num n \<Rightarrow> js_or n (Fin 0))"

text \<open>The pattern \<open>/^\d{1,2}-[A-Z][a-z]{2}$/\<close> of a date column such as \<open>9-Nov\<close>.\<close>

definition dateRegex :: "string \<Rightarrow> bool" where
  "dateRegex k =
     (let ds = takeWhile is_digit k
      in (length ds = 1 \<or> length ds = 2) \<and>
         (case dropWhile is_digit k of
            [h, u, l1, l2] \<Rightarrow> h = CHR ''-'' \<and> is_upper u \<and> is_lower l1 \<and> is_lower l2
          | _ \<Rightarrow> False))"

record canonical =
  brand :: cell
  type :: cell
  posts :: jsnum
  videoPosts :: jsnum
  imagePosts :: jsnum
  engagement :: jsnum
  prevEngagement :: jsnum
  followers :: jsnum
  prevFollowers :: jsnum
  engRate :: jsnum
  wowEng :: jsnum
  wowFoll :: jsnum

text \<open>The Greek capital delta of two column headers, in UTF-8.\<close>

definition Delta :: string where
  "Delta = [char_of (206 :: nat), char_of (148 :: nat)]"

definition totalEng_of_row :: "row \<Rightarrow> jsnum" where
  "totalEng_of_row r =
     (let totalEng = num r ''Total Engagement'';
          followers = num r ''Followers (Current Week)'';
          dateKeys = filter dateRegex (map fst r)
      in if totalEng = Fin 0 \<and> followers = Fin 0 \<and> dateKeys \<noteq> []
         then num r (last dateKeys) else totalEng)"

definition process_row :: "row \<Rightarrow> canonical" where
  "process_row r =
     (let totalEng = totalEng_of_row r;
          followers = num r ''Followers (Current Week)''
      in \<lparr> canonical.brand = first_truthy r [''Brand'', ''Platform Name''] (Str ''Unknown''),
           canonical.type = first_truthy r [''Type''] (Str ''Other''),
           canonical.posts = js_or (num r ''Total Posts'') (Fin 10),
           canonical.videoPosts =
             js_or (js_or (num r ''Video Posts'') (num r ''Video'')) (Fin 0),
           canonical.imagePosts =
             js_or (js_or (num r ''Image Posts'') (num r ''Image'')) (Fin 0),
           canonical.engagement = totalEng,
           canonical.prevEngagement =
             js_or (num r ''Total Engagement (Prev)'') (js_mul totalEng (to_double (9 / 10))),
           canonical.followers = js_or (js_or followers (num r ''Followers'')) (Fin 0),
           canonical.prevFollowers =
             js_or (num r ''Followers (Previous Week)'')
                   (js_mul followers (to_double (95 / 100))),
           canonical.engRate = num r ''Engagement Rate (%)'',
           canonical.wowEng = num r (''Week on Week '' @ Delta @ '' Engagement %''),
           canonical.wowFoll = num r (''Week on Week '' @ Delta @ '' Followers %'') \<rparr>)"

definition processData :: "row list \<Rightarrow> canonical list" where
  "processData data = map process_row data"

text \<open>
  \<open>applyFilters\<close>: the selections are the values of the selected options, strings;
  \<open>includes\<close> compares without conversion, so a cell that is a number matches none.
\<close>

fun includes_cell :: "string list \<Rightarrow> cell \<Rightarrow> bool" where
  "includes_cell sel (Str s) = (s \<in> set sel)"
| "includes_cell sel (Num n) = False"

definition applyFilters :: "string list \<Rightarrow> string list \<Rightarrow> canonical list \<Rightarrow> canonical list" where
  "applyFilters selectedTypes selectedBrands rawData =
     filter (\<lambda>d. includes_cell selectedTypes (canonical.type d) \<and>
                 includes_cell selectedBrands (canonical.brand d)) rawData"

text \<open>The figures of \<open>renderIndustryOverview\<close> that the claims are about.\<close>

definition overview_totalEng :: "canonical list \<Rightarrow> jsnum" where
  "overview_totalEng filteredData = reduce_sum canonical.engagement filteredData"

definition overview_prevEng :: "canonical list \<Rightarrow> jsnum" where
  "overview_prevEng filteredData = reduce_sum canonical.prevEngagement filteredData"

definition pctChange :: "canonical list \<Rightarrow> string" where
  "pctChange filteredData =
     (let totalEng = overview_totalEng filteredData;
          prevEng = overview_prevEng filteredData
      in toFixed 1 (js_mul (js_div (js_sub totalEng prevEng) prevEng) (Fin 100)))"

definition by_engagement_desc :: "canonical \<Rightarrow> canonical \<Rightarrow> jsnum" where
  "by_engagement_desc a b = js_sub (canonical.engagement b) (canonical.engagement a)"

definition top5 :: "canonical list \<Rightarrow> canonical list" where
  "top5 filteredData = take 5 (js_sort by_engagement_desc filteredData)"

text \<open>
  \<open>getDemoData\<close>. \<open>Math.random()\<close> is the source of draws: the \<open>k\<close>-th call returns
  \<open>draws k\<close>, a double in \<open>[0, 1)\<close>. Each of the seven rows makes nine calls, in the order
  of its fields.
\<close>

definition demo_brands :: "string list" where
  "demo_brands = [''Nustar'', ''Okada'', ''Solaire'', ''GCash'', ''Maya'', ''BingoPlus'', ''ArenaPlus'']"

definition demo_types :: "string list" where
  "demo_types = [''IR Casino'', ''IR Casino'', ''IR Casino'', ''Fintech'', ''Fintech'',
                 ''Online Casino'', ''Online Casino'']"

definition random_int :: "real \<Rightarrow> real \<Rightarrow> real \<Rightarrow> jsnum" where
  "random_int d n off = js_add (Math_floor (js_mul (Fin d) (Fin n))) (Fin off)"

definition demo_row :: "(nat \<Rightarrow> real) \<Rightarrow> nat \<Rightarrow> row" where
  "demo_row draws i =
     (let rnd = (\<lambda>k. draws (9 * i + k))
      in [(''Brand'', Str (demo_brands ! i)),
          (''Type'', Str (demo_types ! i)),
          (''Total Posts'', Num (random_int (rnd 0) 50 10)),
          (''Video Posts'', Num (Math_floor (js_mul (Fin (rnd 1)) (Fin 20)))),
          (''Image Posts'', Num (Math_floor (js_mul (Fin (rnd 2)) (Fin 30)))),
          (''Total Engagement'', Num (random_int (rnd 3) 500000 50000)),
          (''Total Engagement (Prev)'', Num (random_int (rnd 4) 500000 50000)),
          (''Engagement Rate (%)'', Str (toFixed 2 (js_mul (Fin (rnd 5)) (Fin 5)))),
          (''Followers (Current Week)'', Num (random_int (rnd 6) 2000000 100000)),
          (''Week on Week '' @ Delta @ '' Engagement %'',
             Str (toFixed 1 (js_sub (js_mul (Fin (rnd 7)) (Fin 100)) (Fin 30)))),
          (''Week on Week '' @ Delta @ '' Followers %'',
             Str (toFixed 1 (js_sub (js_mul (Fin (rnd 8)) (Fin 10)) (Fin 2))))])"

definition getDemoData :: "(nat \<Rightarrow> real) \<Rightarrow> row list" where
  "getDemoData draws = map (demo_row draws) [0 ..< 7]"

text \<open>
  \<open>loadData\<close>: the CSV library either completes with the parsed rows or reports an
  error; the result is the new \<open>rawData\<close>.
\<close>

datatype fetch_result = Complete "row list" | Failed

fun loadData :: "fetch_result \<Rightarrow> (nat \<Rightarrow> real) \<Rightarrow> canonical list" where
  "loadData (Complete data) draws = processData data"
| "loadData Failed draws = processData (getDemoData draws)"


section \<open>The wide-layout dashboard\<close>

text \<open>
  The dashboard that reads one row per brand with one column per week. Its rows come
  from the CSV parser only, so every cell is a string; a header that the sheet does not
  have gives \<open>undefined\<close>, here \<open>None\<close>.
\<close>

type_synonym csv_row = "(string \<times> string) list"

text \<open>An entry of \<open>byType\<close> (its field \<open>posts\<close> is \<open>posts_sum\<close> here).\<close>

record type_stats =
  eng :: jsnum
  posts_sum :: jsnum
  count :: jsnum

record wide_record =
  date :: string
  brand :: string
  platform :: "string option"
  type :: "string option"
  val :: jsnum
  posts :: jsnum
  followers :: jsnum
  engagement :: jsnum

record item = wide_record +
  prevEng :: jsnum
  prevFoll :: jsnum
  wowEng :: jsnum
  wowFoll :: jsnum

record app_state =
  rawData :: "wide_record list"
  weeks :: "string list"
  types :: "string option list"
  brands :: "string list"

record aggregate =
  items :: "item list"
  totalEng :: jsnum
  totalPosts :: jsnum
  totalFoll :: jsnum
  byType :: "(string \<times> type_stats) list"

text \<open>The cleaned value of a date cell: \<open>0\<close> when empty, else \<open>parseFloat\<close> without commas.\<close>

definition date_cell_value :: "string option \<Rightarrow> jsnum" where
  "date_cell_value valStr =
     (case valStr of
        None \<Rightarrow> Fin 0
      | Some s \<Rightarrow> if s = [] then Fin 0 else parseFloat (remove_all CHR '','' s))"

definition make_record :: "csv_row \<Rightarrow> string \<Rightarrow> string \<Rightarrow> wide_record" where
  "make_record r b d =
     (let v = date_cell_value (map_of r d)
      in \<lparr> date = d, brand = b, platform = map_of r ''Platform'', type = map_of r ''Type'',
           val = v,
           posts = Math_ceil (js_div v (Fin 1000)),
           followers = js_mul v (Fin 10),
           engagement = v \<rparr>)"

text \<open>The brand of a row, unless the row is skipped (\<open>if (!brand) return\<close>).\<close>

definition row_brand :: "csv_row \<Rightarrow> string option" where
  "row_brand r =
     (case map_of r ''Brand'' of None \<Rightarrow> None | Some b \<Rightarrow> if b = [] then None else Some b)"

definition row_records :: "string list \<Rightarrow> csv_row \<Rightarrow> wide_record list" where
  "row_records dateCols r =
     (case row_brand r of None \<Rightarrow> [] | Some b \<Rightarrow> map (make_record r b) dateCols)"

text \<open>Adding to a \<open>Set\<close>, which keeps the order of first insertion.\<close>

definition set_add :: "'a list \<Rightarrow> 'a \<Rightarrow> 'a list" where
  "set_add xs x = (if x \<in> set xs then xs else xs @ [x])"

definition parseRawData :: "csv_row list \<Rightarrow> app_state" where
  "parseRawData csvRows =
     (let dateCols = filter dateRegex (map fst (case csvRows of [] \<Rightarrow> [] | r # _ \<Rightarrow> r));
          kept = filter (\<lambda>r. row_brand r \<noteq> None) csvRows
      in \<lparr> rawData = concat (map (row_records dateCols) csvRows),
           weeks = dateCols,
           types = foldl set_add [] (map (\<lambda>r. map_of r ''Type'') kept),
           brands = foldl set_add [] (concat (map (\<lambda>r. case row_brand r of None \<Rightarrow> [] | Some b \<Rightarrow> [b]) kept)) \<rparr>)"

text \<open>\<open>weeks.indexOf(w)\<close>, \<open>-1\<close> when absent.\<close>

fun indexOf :: "'a list \<Rightarrow> 'a \<Rightarrow> int" where
  "indexOf [] x = - 1"
| "indexOf (y # ys) x =
     (if y = x then 0 else (let i = indexOf ys x in if i < 0 then - 1 else i + 1))"

definition prevWeek :: "string list \<Rightarrow> string \<Rightarrow> string option" where
  "prevWeek ws selectedWeek =
     (let prevWeekIndex = indexOf ws selectedWeek - 1
      in if 0 \<le> prevWeekIndex then Some (ws ! nat prevWeekIndex) else None)"

text \<open>\<open>selectedTypes.includes(d.type)\<close>: the selections are strings, \<open>undefined\<close> is none of them.\<close>

fun includes_opt :: "string list \<Rightarrow> string option \<Rightarrow> bool" where
  "includes_opt sel None = False"
| "includes_opt sel (Some t) = (t \<in> set sel)"

text \<open>
  The filter of \<open>updateDashboard\<close>. \<open>minEng\<close> is the parsed value of the slider.
\<close>

definition currentData ::
  "wide_record list \<Rightarrow> string \<Rightarrow> string list \<Rightarrow> string list \<Rightarrow> jsnum \<Rightarrow> wide_record list" where
  "currentData raw selectedWeek selectedTypes selectedBrands minEng =
     filter (\<lambda>d. date d = selectedWeek \<and> includes_opt selectedTypes (type d) \<and>
                 brand d \<in> set selectedBrands \<and> js_ge (engagement d) minEng) raw"

definition prevData ::
  "wide_record list \<Rightarrow> string option \<Rightarrow> string list \<Rightarrow> string list \<Rightarrow> wide_record list" where
  "prevData raw pw selectedTypes selectedBrands =
     (case pw of
        None \<Rightarrow> []
      | Some w \<Rightarrow>
          if w = [] then []
          else filter (\<lambda>d. date d = w \<and> includes_opt selectedTypes (type d) \<and>
                           brand d \<in> set selectedBrands) raw)"

text \<open>
  \<open>aggregateData\<close>. The key of \<open>prevMap\<close> is the template string
  \<open>`${brand}-${platform}`\<close>, in which an absent platform prints as \<open>undefined\<close>. A \<open>Map\<close>
  built from a list of entries keeps the last entry of each key.
\<close>

definition template_opt :: "string option \<Rightarrow> string" where
  "template_opt x = (case x of None \<Rightarrow> ''undefined'' | Some s \<Rightarrow> s)"

definition map_key :: "'a wide_record_scheme \<Rightarrow> string" where
  "map_key p = brand p @ ''-'' @ template_opt (platform p)"

definition prevMap :: "wide_record list \<Rightarrow> string \<Rightarrow> wide_record option" where
  "prevMap prev = map_of (rev (map (\<lambda>p. (map_key p, p)) prev))"

definition wow :: "jsnum \<Rightarrow> jsnum \<Rightarrow> jsnum" where
  "wow cur prv = js_mul (js_div (js_sub cur prv) prv) (Fin 100)"

definition make_item :: "(string \<Rightarrow> wide_record option) \<Rightarrow> wide_record \<Rightarrow> item" where
  "make_item pm c =
     wide_record.extend c
       (case pm (map_key c) of
          None \<Rightarrow> item.fields (Fin 0) (Fin 0) (Fin 0) (Fin 0)
        | Some p \<Rightarrow>
            item.fields (engagement p) (followers p)
              (if js_gt (engagement p) (Fin 0) then wow (engagement c) (engagement p) else Fin 0)
              (if js_gt (followers p) (Fin 0) then wow (followers c) (followers p) else Fin 0))"

text \<open>
  \<open>byType\<close> is a plain object used as a dictionary. A type that is missing prints as the
  key \<open>undefined\<close>. A key that names a property of \<open>Object.prototype\<close> is found there by
  \<open>byType[key]\<close>: the test \<open>!byType[key]\<close> is false, no entry is made, and the additions
  land on the inherited object, outside \<open>byType\<close>. The entries are listed in the order
  of their first insertion, which is the order of the object's keys unless a key is an
  array index (such as \<open>7\<close>): JavaScript lists those first.
\<close>

definition object_prototype_keys :: "string list" where
  "object_prototype_keys =
     [''constructor'', ''hasOwnProperty'', ''isPrototypeOf'', ''propertyIsEnumerable'',
      ''toLocaleString'', ''toString'', ''valueOf'', ''__proto__'', ''__defineGetter__'',
      ''__defineSetter__'', ''__lookupGetter__'', ''__lookupSetter__'']"

definition add_stats :: "item \<Rightarrow> type_stats \<Rightarrow> type_stats" where
  "add_stats i st =
     \<lparr> eng = js_add (eng st) (engagement i),
       posts_sum = js_add (posts_sum st) (posts i),
       count = js_add (count st) (Fin 1) \<rparr>"

definition byType_step :: "(string \<times> type_stats) list \<Rightarrow> item \<Rightarrow> (string \<times> type_stats) list" where
  "byType_step bt i =
     (let k = template_opt (type i)
      in if k \<in> set object_prototype_keys then bt
         else let bt' = (if k \<in> fst ` set bt then bt
                         else bt @ [(k, \<lparr> eng = Fin 0, posts_sum = Fin 0, count = Fin 0 \<rparr>)])
              in map (\<lambda>(k', st). if k' = k then (k', add_stats i st) else (k', st)) bt')"

definition aggregateData :: "wide_record list \<Rightarrow> wide_record list \<Rightarrow> aggregate" where
  "aggregateData cur prev =
     (let its = map (make_item (prevMap prev)) cur
      in \<lparr> items = its,
           totalEng = reduce_sum engagement its,
           totalPosts = reduce_sum posts its,
           totalFoll = reduce_sum followers its,
           byType = foldl byType_step [] its \<rparr>)"

text \<open>\<open>updateDashboard\<close> up to the aggregate it hands to the active tab.\<close>

definition updateDashboard ::
  "app_state \<Rightarrow> string \<Rightarrow> string list \<Rightarrow> string list \<Rightarrow> jsnum \<Rightarrow> aggregate" where
  "updateDashboard st selectedWeek selectedTypes selectedBrands minEng =
     aggregateData
       (currentData (rawData st) selectedWeek selectedTypes selectedBrands minEng)
       (prevData (rawData st) (prevWeek (weeks st) selectedWeek) selectedTypes selectedBrands)"

text \<open>
  The sum of the category totals, taken over the entries of \<open>byType\<close> in their order,
  and the rates that the tabs print: the engagement per post of the casino table and
  the share of a category in the industry table.
\<close>

definition category_total :: "aggregate \<Rightarrow> jsnum" where
  "category_total agg = reduce_sum (\<lambda>(k, st). eng st) (byType agg)"

definition casino_eng_per_post :: "item \<Rightarrow> jsnum" where
  "casino_eng_per_post i = Math_round (js_or (js_div (engagement i) (posts i)) (Fin 0))"

definition industry_share :: "aggregate \<Rightarrow> type_stats \<Rightarrow> string" where
  "industry_share agg st = toFixed 1 (js_mul (js_div (eng st) (totalEng agg)) (Fin 100))"

text \<open>
  The rankings of the tabs: the ten casino items of highest engagement
  (\<open>renderCasino\<close>, after its filter on the type), and the ten largest gainers and
  decliners by week-over-week engagement (\<open>renderMovers\<close>).
\<close>

definition by_item_engagement_desc :: "item \<Rightarrow> item \<Rightarrow> jsnum" where
  "by_item_engagement_desc a b = js_sub (engagement b) (engagement a)"

definition casino_top10 :: "item list \<Rightarrow> item list" where
  "casino_top10 casinoItems = take 10 (js_sort by_item_engagement_desc casinoItems)"

definition gainers :: "aggregate \<Rightarrow> item list" where
  "gainers data =
     take 10 (js_sort (\<lambda>a b. js_sub (wowEng b) (wowEng a))
                (filter (\<lambda>i. js_gt (wowEng i) (Fin 20)) (items data)))"

definition decliners :: "aggregate \<Rightarrow> item list" where
  "decliners data =
     take 10 (js_sort (\<lambda>a b. js_sub (wowEng a) (wowEng b))
                (filter (\<lambda>i. js_lt (wowEng i) (Fin (- 20))) (items data)))"

section \<open>The week-comparison dashboard\<close>

text \<open>
  The dashboard that compares two weeks of a sheet with one row per brand and week. A
  row comes from the CSV parser, header to cell, every cell a string. \<open>normalizeRow\<close>
  replaces the four numeric cells by numbers; the record holds the cells that the
  dashboard reads, under the names of \<open>COL\<close>. Its inner function \<open>num\<close> gives \<open>0\<close> for a
  missing or empty cell and for a cell that does not parse.
\<close>

record week_row =
  col_week :: "string option"
  col_type :: "string option"
  col_brand :: "string option"
  col_totalPosts :: jsnum
  col_totalEngagement :: jsnum
  col_followers :: jsnum
  col_engagementRate :: jsnum

definition normalizeRow_num :: "string option \<Rightarrow> jsnum" where
  "normalizeRow_num v =
     (case v of
        None \<Rightarrow> Fin 0
      | Some s \<Rightarrow>
          if s = [] then Fin 0
          else let n = parseFloat (remove_all CHR '','' s) in if n = NaN then Fin 0 else n)"

definition normalizeRow :: "csv_row \<Rightarrow> week_row" where
  "normalizeRow row =
     \<lparr> col_week = map_of row ''Week'',
       col_type = map_of row ''Type'',
       col_brand = map_of row ''Platform Name'',
       col_totalPosts = normalizeRow_num (map_of row ''Total Posts''),
       col_totalEngagement = normalizeRow_num (map_of row ''Total Engagement''),
       col_followers = normalizeRow_num (map_of row ''Followers''),
       col_engagementRate = normalizeRow_num (map_of row ''Engagement Rate (%)'') \<rparr>"

text \<open>The rows that \<open>loadData\<close> keeps: the normalized rows with a non-empty week.\<close>

definition rawRows :: "csv_row list \<Rightarrow> week_row list" where
  "rawRows data =
     filter (\<lambda>r. case col_week r of None \<Rightarrow> False | Some w \<Rightarrow> w \<noteq> []) (map normalizeRow data)"

definition filterRows :: "week_row list \<Rightarrow> string \<Rightarrow> string \<Rightarrow> week_row list" where
  "filterRows rows week typeFilter =
     filter (\<lambda>r. col_week r = Some week \<and> (typeFilter = ''ALL'' \<or> col_type r = Some typeFilter)) rows"

text \<open>
  \<open>renderMoversChart\<close> up to the array \<open>movers\<close>, before it is sorted. \<open>byBrandWeek\<close> is
  a plain object used as a dictionary from the key \<open>brand__week\<close> to the engagement
  summed so far. A key that names a property of \<open>Object.prototype\<close> reads as that
  property, or as the string that the first addition made of it: in either case a
  value that is not a number, is truthy and converts to \<open>NaN\<close>.
\<close>

datatype slot = Number jsnum | NotNumber

fun to_number :: "slot \<Rightarrow> jsnum" where
  "to_number (Number n) = n"
| "to_number NotNumber = NaN"

fun isFinite :: "jsnum \<Rightarrow> bool" where
  "isFinite (Fin r) = True"
| "isFinite a = False"

definition brand_week_key :: "string option \<Rightarrow> string option \<Rightarrow> string" where
  "brand_week_key b w = template_opt b @ ''__'' @ template_opt w"

text \<open>\<open>byBrandWeek[key] || 0\<close>.\<close>

definition byBrandWeek_or0 :: "(string \<Rightarrow> jsnum option) \<Rightarrow> string \<Rightarrow> slot" where
  "byBrandWeek_or0 m key =
     (if key \<in> set object_prototype_keys then NotNumber
      else Number (js_or (case m key of None \<Rightarrow> Fin 0 | Some v \<Rightarrow> v) (Fin 0)))"

definition byBrandWeek_step :: "(string \<Rightarrow> jsnum option) \<Rightarrow> week_row \<Rightarrow> (string \<Rightarrow> jsnum option)" where
  "byBrandWeek_step m r =
     (let key = brand_week_key (col_brand r) (col_week r)
      in case byBrandWeek_or0 m key of
           NotNumber \<Rightarrow> m
         | Number s \<Rightarrow> m(key \<mapsto> js_add s (col_totalEngagement r)))"

record mover =
  mover_brand :: "string option"
  diff :: jsnum
  pct :: jsnum

text \<open>The body of \<open>brands.forEach\<close>: the entry pushed for a brand, if any.\<close>

definition brand_mover :: "(string \<Rightarrow> jsnum option) \<Rightarrow> string \<Rightarrow> string \<Rightarrow> string option \<Rightarrow> mover list" where
  "brand_mover m weekA weekB b =
     (let a = byBrandWeek_or0 m (brand_week_key b (Some weekA));
          b' = byBrandWeek_or0 m (brand_week_key b (Some weekB));
          d = js_sub (to_number b') (to_number a);
          p = (if a = Number (Fin 0) then (if b' = Number (Fin 0) then Fin 0 else Fin 100)
               else js_mul (js_div d (to_number a)) (Fin 100))
      in if isFinite p then [\<lparr> mover_brand = b, diff = d, pct = p \<rparr>] else [])"

definition movers :: "week_row list \<Rightarrow> week_row list \<Rightarrow> string \<Rightarrow> string \<Rightarrow> mover list" where
  "movers rowsA rowsB weekA weekB =
     (let byBrandWeek = foldl byBrandWeek_step Map.empty (rowsA @ rowsB);
          brandSet = foldl set_add [] (map col_brand (rowsA @ rowsB))
      in concat (map (brand_mover byBrandWeek weekA weekB) brandSet))"


section \<open>Sample data\<close>

text \<open>
  A sheet in the wide layout, used to run the definitions: three brands over two weeks,
  and a row without a brand.
\<close>

definition sample_headers :: "string list" where
  "sample_headers = [''Brand'', ''Platform'', ''Type'', ''9-Nov'', ''16-Nov'']"

definition sample_sheet :: "csv_row list" where
  "sample_sheet =
     [zip sample_headers [''Acme'', ''FB'', ''Casino'', ''1,000'', ''3,000''],
      zip sample_headers [''Bolt'', ''IG'', ''Fintech'', ''2,000'', ''4,000''],
      zip sample_headers [''Cato'', ''FB'', ''Casino'', ''5,000'', ''2,000''],
      zip sample_headers ['''', '''', '''', '''', '''']]"

definition acme_9 :: wide_record where
  "acme_9 = \<lparr> date = ''9-Nov'', brand = ''Acme'', platform = Some ''FB'', type = Some ''Casino'',
               val = Fin 1000, posts = Fin 1, followers = Fin 10000, engagement = Fin 1000 \<rparr>"

definition acme_16 :: wide_record where
  "acme_16 = \<lparr> date = ''16-Nov'', brand = ''Acme'', platform = Some ''FB'', type = Some ''Casino'',
                val = Fin 3000, posts = Fin 3, followers = Fin 30000, engagement = Fin 3000 \<rparr>"

definition bolt_9 :: wide_record where
  "bolt_9 = \<lparr> date = ''9-Nov'', brand = ''Bolt'', platform = Some ''IG'', type = Some ''Fintech'',
               val = Fin 2000, posts = Fin 2, followers = Fin 20000, engagement = Fin 2000 \<rparr>"

definition bolt_16 :: wide_record where
  "bolt_16 = \<lparr> date = ''16-Nov'', brand = ''Bolt'', platform = Some ''IG'', type = Some ''Fintech'',
                val = Fin 4000, posts = Fin 4, followers = Fin 40000, engagement = Fin 4000 \<rparr>"

definition cato_9 :: wide_record where
  "cato_9 = \<lparr> date = ''9-Nov'', brand = ''Cato'', platform = Some ''FB'', type = Some ''Casino'',
               val = Fin 5000, posts = Fin 5, followers = Fin 50000, engagement = Fin 5000 \<rparr>"

definition cato_16 :: wide_record where
  "cato_16 = \<lparr> date = ''16-Nov'', brand = ''Cato'', platform = Some ''FB'', type = Some ''Casino'',
                val = Fin 2000, posts = Fin 2, followers = Fin 20000, engagement = Fin 2000 \<rparr>"

section \<open>Vocabulary of the statements\<close>

text \<open>The data rows of a wide sheet: the rows that carry a brand.\<close>

definition data_rows :: "csv_row list \<Rightarrow> csv_row list" where
  "data_rows csvRows = filter (\<lambda>r. row_brand r \<noteq> None) csvRows"

text \<open>The scenario of the specification: one row under four headers.\<close>

definition scenario_row :: csv_row where
  "scenario_row = zip [''Brand'', ''Type'', ''9-Nov'', ''16-Nov''] [''Acme'', ''Casino'', ''1,000'', ''3,000'']"

text \<open>A row of a long sheet with no brand in either brand column.\<close>

definition blank_long_row :: row where
  "blank_long_row = [(''Brand'', Str ''''), (''Type'', Str ''Casino''), (''Total Engagement'', Str ''500'')]"

text \<open>The record of a brand whose cell for the previous week is empty.\<close>

definition acme_idle :: wide_record where
  "acme_idle = \<lparr> date = ''9-Nov'', brand = ''Acme'', platform = Some ''FB'', type = Some ''Casino'',
                  val = Fin 0, posts = Fin 0, followers = Fin 0, engagement = Fin 0 \<rparr>"

text \<open>A row of a long sheet for a brand without any engagement.\<close>

definition idle_long_row :: row where
  "idle_long_row = [(''Brand'', Str ''Acme''), (''Type'', Str ''Casino''), (''Total Engagement'', Str ''0'')]"

text \<open>Two rows of a long sheet with the same engagement.\<close>

definition tie_row_a :: row where
  "tie_row_a = [(''Brand'', Str ''Acme''), (''Type'', Str ''Casino''), (''Total Engagement'', Str ''500'')]"

definition tie_row_b :: row where
  "tie_row_b = [(''Brand'', Str ''Bolt''), (''Type'', Str ''Casino''), (''Total Engagement'', Str ''500'')]"

text \<open>
  A numeric string: digits and thousands separators, at least one digit, and
  possibly a percent sign at the end. Its digits are \<open>digits_of\<close>.
\<close>

definition strip_percent :: "string \<Rightarrow> string" where
  "strip_percent s = (if s \<noteq> [] \<and> last s = CHR ''%'' then butlast s else s)"

definition numeric_string :: "string \<Rightarrow> bool" where
  "numeric_string s =
     (list_all (\<lambda>c. is_digit c \<or> c = CHR '','') (strip_percent s) \<and>
      list_ex is_digit (strip_percent s))"

definition digits_of :: "string \<Rightarrow> string" where
  "digits_of s = filter is_digit s"

text \<open>A one-week sheet with a large engagement between two small ones, and its records.\<close>

definition rounding_sheet :: "csv_row list" where
  "rounding_sheet =
     [zip [''Brand'', ''Type'', ''9-Nov''] [''Acme'', ''A'', ''1''],
      zip [''Brand'', ''Type'', ''9-Nov''] [''Bolt'', ''B'', ''10000000000000000''],
      zip [''Brand'', ''Type'', ''9-Nov''] [''Cato'', ''A'', ''1'']]"

definition one_a :: wide_record where
  "one_a = \<lparr> date = ''9-Nov'', brand = ''Acme'', platform = None, type = Some ''A'',
              val = Fin 1, posts = Fin 1, followers = Fin 10, engagement = Fin 1 \<rparr>"

definition big_b :: wide_record where
  "big_b = \<lparr> date = ''9-Nov'', brand = ''Bolt'', platform = None, type = Some ''B'',
              val = Fin 10000000000000000, posts = Fin 10000000000000,
              followers = Fin 100000000000000000, engagement = Fin 10000000000000000 \<rparr>"

definition one_c :: wide_record where
  "one_c = \<lparr> date = ''9-Nov'', brand = ''Cato'', platform = None, type = Some ''A'',
              val = Fin 1, posts = Fin 1, followers = Fin 10, engagement = Fin 1 \<rparr>"

text \<open>
  A sheet of the week-comparison dashboard: a brand without engagement in the first
  week, a brand that loses engagement in the first week, and a brand that the first
  week does not have.
\<close>

definition week_sheet_row :: "string \<Rightarrow> string \<Rightarrow> string \<Rightarrow> csv_row" where
  "week_sheet_row w b e =
     [(''Week'', w), (''Type'', ''Casino''), (''Platform Name'', b), (''Total Posts'', ''10''),
      (''Total Engagement'', e), (''Followers'', ''1,000''), (''Engagement Rate (%)'', ''1.5'')]"

definition week_sheet :: "csv_row list" where
  "week_sheet =
     [week_sheet_row ''W1'' ''Acme'' ''0'', week_sheet_row ''W1'' ''Cato'' ''-100'',
      week_sheet_row ''W2'' ''Acme'' ''500'', week_sheet_row ''W2'' ''Cato'' ''500'',
      week_sheet_row ''W2'' ''Bolt'' ''300'']"


section \<open>Facts about rounding\<close>

lemma round_half_even_of_int: "round_half_even (of_int k) = k"
  by (simp add: round_half_even_def)

lemma pow2_pos: "0 < pow2 e"
  by (simp add: pow2_def)

lemma to_double_int_pos:
  assumes "0 < n" "n \<le> 2 ^ 53"
  shows "to_double (of_int n) = Fin (of_int n)"
proof -
  from bitlen_bounds [OF assms(1)]
  have lo: "2 ^ nat (bitlen n - 1) \<le> n" and hi: "n < 2 ^ nat (bitlen n)" by simp_all
  have b1: "1 \<le> bitlen n" using assms(1) by (simp add: bitlen_alt_def)
  have "(2::int) ^ nat (bitlen n - 1) \<le> 2 ^ 53" using lo assms(2) by linarith
  then have "nat (bitlen n - 1) \<le> 53" by (rule power_le_imp_le_exp [rotated]) simp
  then have b54: "bitlen n - 1 \<le> 53" by simp
  define e where "e = bitlen n - 1"
  have e: "0 \<le> e" "e \<le> 53" using b1 b54 by (simp_all add: e_def)
  have ex: "exponent (of_int n) = e" using assms(1) by (simp add: exponent_def e_def)
  have mx: "max e (- 1022) = e" using e by simp
  have "\<exists>k. real_of_int n / pow2 (e - 52) = of_int k"
  proof (cases "e \<le> 52")
    case True
    then have "pow2 (e - 52) = 1 / 2 ^ nat (52 - e)" by (simp add: pow2_def)
    then have "real_of_int n / pow2 (e - 52) = of_int (n * 2 ^ nat (52 - e))"
      using assms(1) by simp
    then show ?thesis by blast
  next
    case False
    with e have e53: "e = 53" by simp
    with lo have "2 ^ 53 \<le> n" by (simp add: e_def)
    with assms(2) have n: "n = 2 ^ 53" by simp
    have "pow2 (e - 52) = 2" using e53 by (simp add: pow2_def)
    then have "real_of_int n / pow2 (e - 52) = of_int (2 ^ 52)" using n by simp
    then show ?thesis by blast
  qed
  then obtain k where k: "real_of_int n / pow2 (e - 52) = of_int k" by blast
  have v: "of_int (round_half_even (real_of_int n / pow2 (e - 52))) * pow2 (e - 52) = real_of_int n"
    using pow2_pos [of "e - 52"] by (simp only: k round_half_even_of_int) (simp add: k [symmetric])
  have small: "\<not> (2::real) ^ 1024 \<le> real_of_int n"
  proof -
    have "real_of_int n \<le> 2 ^ 53" using assms(2) by (metis of_int_le_iff of_int_numeral of_int_power)
    also have "\<dots> < (2::real) ^ 1024" by simp
    finally show ?thesis by simp
  qed
  show ?thesis
    using assms(1) small by (simp add: to_double_def ex mx v Let_def del: power_numeral)
qed
lemma pow2_powi: "pow2 e = 2 powi e"
  by (simp add: pow2_def power_int_def power_one_over)

lemma pow2_diff: "pow2 (a - b) = pow2 a / pow2 b"
  by (simp add: pow2_powi power_int_diff)

lemma pow2_mono: "a \<le> b \<Longrightarrow> pow2 a \<le> pow2 b"
  by (simp add: pow2_powi power_int_increasing)

lemma round_half_even_ge_floor: "\<lfloor>q\<rfloor> \<le> round_half_even q"
  by (simp add: round_half_even_def Let_def)

lemma round_half_even_le: "of_int (round_half_even q) \<le> q + 1"
proof -
  have "round_half_even q \<le> \<lfloor>q\<rfloor> + 1" by (simp add: round_half_even_def Let_def)
  then have "real_of_int (round_half_even q) \<le> of_int (\<lfloor>q\<rfloor> + 1)" by (simp only: of_int_le_iff)
  also have "\<dots> \<le> q + 1" by simp
  finally show ?thesis .
qed

lemma to_double_neg: "to_double (- r) = js_neg (to_double r)"
  by (cases "r = 0"; cases "r < 0") (auto simp add: to_double_def Let_def sgn_if)

lemma exponent_bounds_ge1:
  assumes "1 \<le> r"
  shows "0 \<le> exponent r" and "pow2 (exponent r) \<le> r"
proof -
  have pos: "0 < \<lfloor>r\<rfloor>" using assms by simp
  have b1: "1 \<le> bitlen \<lfloor>r\<rfloor>" using pos by (simp add: bitlen_alt_def)
  show e0: "0 \<le> exponent r" using assms b1 by (simp add: exponent_def)
  from bitlen_bounds [OF pos] have "2 ^ nat (bitlen \<lfloor>r\<rfloor> - 1) \<le> \<lfloor>r\<rfloor>" by simp
  then have "real_of_int (2 ^ nat (bitlen \<lfloor>r\<rfloor> - 1)) \<le> of_int \<lfloor>r\<rfloor>" by (simp only: of_int_le_iff)
  also have "\<dots> \<le> r" by simp
  finally show "pow2 (exponent r) \<le> r" using assms b1 by (simp add: exponent_def pow2_def)
qed

lemma exponent_le0: "r < 1 \<Longrightarrow> exponent r \<le> 0"
  by (simp add: exponent_def bitlen_nonneg)

lemma to_double_finite:
  assumes "0 \<le> r" "r \<le> 10 ^ 308"
  shows "\<exists>v. to_double r = Fin v \<and> 0 \<le> v"
proof (cases "r = 0")
  case True
  then show ?thesis by (simp add: to_double_def)
next
  case False
  with assms have rpos: "0 < r" by simp
  define u where "u = pow2 (max (exponent r) (- 1022) - 52)"
  define m where "m = round_half_even (r / u)"
  have upos: "0 < u" by (simp add: u_def pow2_pos)
  have "0 \<le> r / u" using rpos upos by simp
  then have "0 \<le> \<lfloor>r / u\<rfloor>" by (simp only: zero_le_floor)
  with round_half_even_ge_floor [of "r / u"] have m0: "0 \<le> m" unfolding m_def by linarith
  have "real_of_int m * u \<le> (r / u + 1) * u"
    using round_half_even_le [of "r / u"] upos by (simp add: m_def mult_right_mono)
  also have "\<dots> = r + u" using upos by (simp add: field_simps)
  finally have vle: "real_of_int m * u \<le> r + u" .
  have ule: "u \<le> 1 \<or> u \<le> r / 2 ^ 52"
  proof (cases "1 \<le> r")
    case True
    from exponent_bounds_ge1 [OF True] have e: "0 \<le> exponent r" "pow2 (exponent r) \<le> r" .
    have "u = pow2 (exponent r) / pow2 52" using e(1) by (simp add: u_def pow2_diff max_def)
    also have "\<dots> \<le> r / pow2 52" using e(2) pow2_pos [of 52] by (simp add: divide_right_mono)
    finally show ?thesis by (simp add: pow2_def)
  next
    case False
    then have "exponent r \<le> 0" by (simp add: exponent_le0)
    then have "max (exponent r) (- 1022) - 52 \<le> 0" by simp
    from pow2_mono [OF this] show ?thesis by (simp add: u_def pow2_def)
  qed
  have small: "real_of_int m * u < 2 ^ 1024"
  proof -
    have "r + u \<le> 10 ^ 308 + 10 ^ 308 / 2 ^ 52"
    proof -
      from ule show ?thesis
      proof
        assume "u \<le> 1"
        moreover have "(1::real) \<le> 10 ^ 308 / 2 ^ 52" by simp
        ultimately show ?thesis using assms(2) by linarith
      next
        assume "u \<le> r / 2 ^ 52"
        moreover have "r / 2 ^ 52 \<le> 10 ^ 308 / 2 ^ 52" using assms(2) by (simp add: divide_right_mono)
        ultimately show ?thesis using assms(2) by linarith
      qed
    qed
    moreover have "(10::real) ^ 308 + 10 ^ 308 / 2 ^ 52 < 2 ^ 1024" by simp
    ultimately show ?thesis using vle by linarith
  qed
  have v0: "0 \<le> real_of_int m * u" using m0 upos by simp
  show ?thesis
    using rpos small v0 unfolding to_double_def Let_def
    by (simp add: u_def [symmetric] m_def [symmetric] del: power_numeral)
qed

lemma to_double_overflow:
  assumes "2 ^ 1024 \<le> r"
  shows "to_double r = PInf"
proof -
  have r1: "1 \<le> r" using assms by (rule order_trans [rotated]) simp
  have rpos: "0 < r" using r1 by simp
  have fl: "2 ^ 1024 \<le> \<lfloor>r\<rfloor>" using assms by (simp add: le_floor_iff)
  then have pos: "0 < \<lfloor>r\<rfloor>" by (rule less_le_trans [rotated]) simp
  from bitlen_bounds [OF pos] have "\<lfloor>r\<rfloor> < 2 ^ nat (bitlen \<lfloor>r\<rfloor>)" by simp
  with fl have "(2::int) ^ 1024 < 2 ^ nat (bitlen \<lfloor>r\<rfloor>)" by linarith
  then have "1024 < nat (bitlen \<lfloor>r\<rfloor>)" by (rule power_less_imp_less_exp [rotated]) simp
  then have e: "1024 \<le> exponent r" using r1 by (simp add: exponent_def)
  define u where "u = pow2 (exponent r - 52)"
  have upos: "0 < u" by (simp add: u_def pow2_pos)
  have u_eq: "u * 2 ^ 52 = pow2 (exponent r)"
    by (simp add: u_def pow2_diff) (simp add: pow2_def)
  from exponent_bounds_ge1 [OF r1] have lo: "pow2 (exponent r) \<le> r" by simp
  have "2 ^ 52 \<le> r / u" using lo upos u_eq by (simp add: pos_le_divide_eq mult.commute)
  then have "2 ^ 52 \<le> \<lfloor>r / u\<rfloor>" by (simp add: le_floor_iff)
  with round_half_even_ge_floor [of "r / u"] have "2 ^ 52 \<le> round_half_even (r / u)" by linarith
  then have "real_of_int (2 ^ 52) \<le> of_int (round_half_even (r / u))" by (simp only: of_int_le_iff)
  then have "2 ^ 52 * u \<le> of_int (round_half_even (r / u)) * u"
    using upos by (simp add: mult_right_mono del: power_numeral)
  moreover have "(2::real) ^ 1024 \<le> pow2 (exponent r)"
    using pow2_mono [OF e] by (simp add: pow2_def)
  ultimately have big: "2 ^ 1024 \<le> of_int (round_half_even (r / u)) * u"
    using u_eq by (simp add: mult.commute del: power_numeral)
  have mx: "max (exponent r) (- 1022) = exponent r" using e by simp
  show ?thesis
    using rpos big unfolding to_double_def Let_def
    by (simp add: mx u_def [symmetric] del: power_numeral)
qed

lemma to_double_numeral:
  "(numeral k :: int) \<le> 2 ^ 53 \<Longrightarrow> to_double (numeral k) = Fin (numeral k)"
  using to_double_int_pos [of "numeral k"] by simp

lemma to_double_one: "to_double 1 = Fin 1"
  using to_double_int_pos [of 1] by simp

lemma to_double_zero: "to_double 0 = Fin 0"
  by (simp add: to_double_def)

lemmas double_eval = to_double_numeral to_double_one to_double_zero

lemmas parse_eval =
  parseFloat_def unsigned_decimal_def exponent_part_def digits_val_def digit_val_def
  is_digit_def is_space_def pow10_def remove_all_def Let_def

lemmas date_eval = dateRegex_def is_digit_def is_upper_def is_lower_def Let_def

lemma parseFloat_zero: "parseFloat ''0'' = Fin 0"
  by (simp add: parse_eval double_eval)

lemma reduce_sum_map: "reduce_sum f xs = foldl js_add (Fin 0) (map f xs)"
  by (simp add: reduce_sum_def foldl_map)


section \<open>The sample sheet, parsed\<close>

lemma sample_weeks: "weeks (parseRawData sample_sheet) = [''9-Nov'', ''16-Nov'']"
  by (simp add: parseRawData_def sample_sheet_def sample_headers_def date_eval)

lemma sample_cells:
  "date_cell_value (Some ''1,000'') = Fin 1000"
  "date_cell_value (Some ''3,000'') = Fin 3000"
  "date_cell_value (Some ''2,000'') = Fin 2000"
  "date_cell_value (Some ''5,000'') = Fin 5000"
  "date_cell_value (Some ''4,000'') = Fin 4000"
  by (simp_all add: date_cell_value_def parse_eval double_eval)

lemma sample_rawData:
  "rawData (parseRawData sample_sheet) = [acme_9, acme_16, bolt_9, bolt_16, cato_9, cato_16]"
  by (simp add: parseRawData_def sample_sheet_def sample_headers_def date_eval row_records_def
        row_brand_def make_record_def sample_cells double_eval
        acme_9_def acme_16_def bolt_9_def bolt_16_def cato_9_def cato_16_def)

section \<open>Claims about the wide-layout normalizer\<close>

lemma set_row_records:
  "r \<in> set (row_records dateCols row) \<Longrightarrow> \<exists>b d. r = make_record row b d"
  by (auto simp add: row_records_def split: option.splits)

text \<open>
  Claim C9. Every record that the wide-layout normalizer \<open>parseRawData\<close> emits has
  \<open>followers = engagement * 10\<close> and \<open>posts = Math.ceil(engagement / 1000)\<close>, where
  \<open>engagement\<close> is the value of the date cell: the follower and post counts are computed
  from that one number and never read from the sheet.
\<close>

theorem wide_followers_posts_from_engagement:
  "\<forall>r \<in> set (rawData (parseRawData csvRows)).
     followers r = js_mul (engagement r) (Fin 10) \<and>
     posts r = Math_ceil (js_div (engagement r) (Fin 1000)) \<and>
     (\<exists>row. row \<in> set csvRows \<and> engagement r = date_cell_value (map_of row (date r)))"
proof
  fix r
  assume "r \<in> set (rawData (parseRawData csvRows))"
  then obtain row dateCols where row: "row \<in> set csvRows" "r \<in> set (row_records dateCols row)"
    by (auto simp add: parseRawData_def Let_def)
  then obtain b d where "r = make_record row b d"
    using set_row_records by blast
  with row(1) show "followers r = js_mul (engagement r) (Fin 10) \<and>
     posts r = Math_ceil (js_div (engagement r) (Fin 1000)) \<and>
     (\<exists>row. row \<in> set csvRows \<and> engagement r = date_cell_value (map_of row (date r)))"
    by (auto simp add: make_record_def Let_def)
qed

theorem wide_followers_posts_from_engagement_witness:
  "bolt_16 \<in> set (rawData (parseRawData sample_sheet)) \<and>
   engagement bolt_16 = Fin 4000 \<and>
   followers bolt_16 = js_mul (Fin 4000) (Fin 10) \<and>
   posts bolt_16 = Math_ceil (js_div (Fin 4000) (Fin 1000))"
proof -
  have m: "bolt_16 \<in> set (rawData (parseRawData sample_sheet))"
    by (simp add: sample_rawData)
  have e: "engagement bolt_16 = Fin 4000"
    by (simp add: bolt_16_def)
  from wide_followers_posts_from_engagement [of sample_sheet] m
  have "followers bolt_16 = js_mul (engagement bolt_16) (Fin 10) \<and>
        posts bolt_16 = Math_ceil (js_div (engagement bolt_16) (Fin 1000))"
    by blast
  with m e show ?thesis by simp
qed

lemma rawData_parse:
  "rawData (parseRawData rows) = concat (map (row_records (weeks (parseRawData rows))) rows)"
  by (simp add: parseRawData_def Let_def)

lemma weeks_parse:
  "weeks (parseRawData rows) = filter dateRegex (map fst (case rows of [] \<Rightarrow> [] | r # _ \<Rightarrow> r))"
  by (simp add: parseRawData_def Let_def)

lemma length_row_records:
  "length (row_records dc r) = (if row_brand r = None then 0 else length dc)"
  by (simp add: row_records_def split: option.splits)

lemma length_concat_row_records:
  "length (concat (map (row_records dc) rows)) = length (data_rows rows) * length dc"
  by (induction rows) (simp_all add: data_rows_def length_row_records)

lemma row_brand_Some: "row_brand r = Some b \<Longrightarrow> map_of r ''Brand'' = Some b"
  by (simp add: row_brand_def split: option.splits if_splits)

lemma triples_row_records:
  "map (\<lambda>r. (Some (brand r), type r, date r)) (row_records dc row) =
     (if row_brand row = None then []
      else map (\<lambda>d. (map_of row ''Brand'', map_of row ''Type'', d)) dc)"
  by (auto simp add: row_records_def make_record_def Let_def row_brand_Some split: option.splits)

lemma triples_concat_row_records:
  "map (\<lambda>r. (Some (brand r), type r, date r)) (concat (map (row_records dc) rows)) =
     map (\<lambda>(row, d). (map_of row ''Brand'', map_of row ''Type'', d))
         (List.product (data_rows rows) dc)"
proof (induction rows)
  case Nil
  show ?case by (simp add: data_rows_def)
next
  case (Cons row rows)
  have "data_rows (row # rows) = (if row_brand row = None then [] else [row]) @ data_rows rows"
    by (simp add: data_rows_def)
  then show ?case
    using Cons by (simp add: triples_row_records comp_def)
qed

lemma scenario_weeks: "weeks (parseRawData [scenario_row]) = [''9-Nov'', ''16-Nov'']"
  by (simp add: weeks_parse scenario_row_def date_eval)

lemma scenario_data_rows: "data_rows [scenario_row] = [scenario_row]"
  by (simp add: data_rows_def row_brand_def scenario_row_def)

text \<open>
  Claim C3. For a wide sheet, \<open>parseRawData\<close> emits exactly one record per pair of a
  data row and a date column, in row order and then column order: the record's period
  (\<open>date\<close>) is the date header, and its brand and category (\<open>type\<close>) are the cells of the
  row. The data rows are the rows that carry a brand; the date columns are the headers
  of the first row that match the date pattern. The scenario of one row under the
  headers \<open>Brand\<close>, \<open>Type\<close>, \<open>9-Nov\<close>, \<open>16-Nov\<close> gives two records.
\<close>

theorem wide_one_record_per_row_and_date:
  "map (\<lambda>r. (Some (brand r), type r, date r)) (rawData (parseRawData csvRows)) =
     map (\<lambda>(row, d). (map_of row ''Brand'', map_of row ''Type'', d))
         (List.product (data_rows csvRows) (weeks (parseRawData csvRows))) \<and>
   length (rawData (parseRawData csvRows)) =
     length (data_rows csvRows) * length (weeks (parseRawData csvRows)) \<and>
   weeks (parseRawData csvRows) =
     filter dateRegex (map fst (case csvRows of [] \<Rightarrow> [] | r # _ \<Rightarrow> r))"
  by (simp only: rawData_parse triples_concat_row_records length_concat_row_records)
     (simp add: weeks_parse)

theorem wide_one_record_per_row_and_date_witness:
  "map (\<lambda>r. (Some (brand r), type r, date r)) (rawData (parseRawData [scenario_row])) =
     [(Some ''Acme'', Some ''Casino'', ''9-Nov''), (Some ''Acme'', Some ''Casino'', ''16-Nov'')] \<and>
   length (rawData (parseRawData [scenario_row])) = 2"
  using wide_one_record_per_row_and_date [of "[scenario_row]"]
  by (simp add: scenario_weeks scenario_data_rows) (simp add: scenario_row_def)

lemma length_data_rows:
  "length (data_rows rows) = length rows - length (filter (\<lambda>r. row_brand r = None) rows)"
proof -
  have "length rows = length (filter (\<lambda>r. row_brand r \<noteq> None) rows) + length (filter (\<lambda>r. \<not> row_brand r \<noteq> None) rows)"
    by (rule sum_length_filter_compl [symmetric])
  then show ?thesis by (simp add: data_rows_def)
qed

lemma first_truthy_default:
  "\<forall>k \<in> set ks. (case map_of r k of None \<Rightarrow> True | Some c \<Rightarrow> \<not> cell_truthy c) \<Longrightarrow>
   first_truthy r ks dflt = dflt"
  by (induction ks) (auto split: option.splits)

text \<open>
  Claim C5, as amended. The wide-layout normalizer \<open>parseRawData\<close> skips, without an
  error, every row whose \<open>Brand\<close> cell is absent or empty: it emits one record per date
  column for each of the other rows, so a sheet with exactly one such row gives
  (rows - 1) times (date columns) records, and every record has a brand. The
  long-layout normalizer \<open>processData\<close> drops no row: it emits one record per row, and a
  row with no usable \<open>Brand\<close> or \<open>Platform Name\<close> cell gets the brand \<open>Unknown\<close>.
\<close>

theorem brandless_rows_amended:
  "length (rawData (parseRawData csvRows)) =
     (length csvRows - length (filter (\<lambda>r. row_brand r = None) csvRows))
       * length (weeks (parseRawData csvRows)) \<and>
   (\<forall>r \<in> set (rawData (parseRawData csvRows)). brand r \<noteq> []) \<and>
   length (processData data) = length data \<and>
   (\<forall>row \<in> set data.
      (\<forall>k \<in> set [''Brand'', ''Platform Name''].
         case map_of row k of None \<Rightarrow> True | Some c \<Rightarrow> \<not> cell_truthy c) \<longrightarrow>
      canonical.brand (process_row row) = Str ''Unknown'')"
proof -
  have 1: "length (rawData (parseRawData csvRows)) =
     (length csvRows - length (filter (\<lambda>r. row_brand r = None) csvRows))
       * length (weeks (parseRawData csvRows))"
    by (simp only: rawData_parse length_concat_row_records length_data_rows)
  have 2: "\<forall>r \<in> set (rawData (parseRawData csvRows)). brand r \<noteq> []"
    by (auto simp add: rawData_parse row_records_def row_brand_def make_record_def Let_def
          split: option.splits if_splits)
  have 3: "length (processData data) = length data"
    by (simp add: processData_def)
  have 4: "\<forall>row \<in> set data.
      (\<forall>k \<in> set [''Brand'', ''Platform Name''].
         case map_of row k of None \<Rightarrow> True | Some c \<Rightarrow> \<not> cell_truthy c) \<longrightarrow>
      canonical.brand (process_row row) = Str ''Unknown''"
    using first_truthy_default [of "[''Brand'', ''Platform Name'']"]
    by (simp add: process_row_def Let_def)
  from 1 2 3 4 show ?thesis by blast
qed

lemma sample_blank_rows:
  "filter (\<lambda>r. row_brand r = None) sample_sheet = [zip sample_headers ['''', '''', '''', '''', '''']]"
  by (simp add: sample_sheet_def sample_headers_def row_brand_def)

theorem brandless_rows_amended_witness:
  "length sample_sheet = 4 \<and>
   length (filter (\<lambda>r. row_brand r = None) sample_sheet) = 1 \<and>
   length (rawData (parseRawData sample_sheet)) = (4 - 1) * 2 \<and>
   brand acme_9 \<noteq> [] \<and>
   length (processData [blank_long_row]) = 1 \<and>
   canonical.brand (process_row blank_long_row) = Str ''Unknown''"
proof -
  have a: "acme_9 \<in> set (rawData (parseRawData sample_sheet))"
    by (simp add: sample_rawData)
  have b: "blank_long_row \<in> set [blank_long_row]" by simp
  have c: "\<forall>k \<in> set [''Brand'', ''Platform Name''].
         case map_of blank_long_row k of None \<Rightarrow> True | Some c \<Rightarrow> \<not> cell_truthy c"
    by (simp add: blank_long_row_def)
  have d: "length sample_sheet = 4" by (simp add: sample_sheet_def)
  from brandless_rows_amended [of sample_sheet "[blank_long_row]"] a b c d
  show ?thesis by (simp add: sample_blank_rows sample_weeks)
qed

theorem brandless_row_count_counterexample:
  "length [blank_long_row] = 1 \<and>
   length (processData [blank_long_row]) \<noteq> length [blank_long_row] - 1 \<and>
   length (filter (\<lambda>r. row_brand r = None) sample_sheet) = 1 \<and>
   length (rawData (parseRawData sample_sheet)) \<noteq> length sample_sheet - 1"
proof -
  have "length (rawData (parseRawData sample_sheet)) = 6"
    by (simp add: sample_rawData)
  moreover have "length sample_sheet = 4"
    by (simp add: sample_sheet_def)
  moreover have "length (filter (\<lambda>r. row_brand r = None) sample_sheet) = 1"
    by (simp add: sample_blank_rows)
  ultimately show ?thesis
    by (simp add: processData_def)
qed

section \<open>Claims about the aggregation engine\<close>

lemma map_of_find:
  "map_of (map (\<lambda>p. (f p, p)) xs) k = find (\<lambda>p. f p = k) xs"
  by (induction xs) auto

lemma prevMap_find: "prevMap prev k = find (\<lambda>p. map_key p = k) (rev prev)"
  by (simp only: prevMap_def rev_map map_of_find)

lemma items_aggregateData: "items (aggregateData cur prev) = map (make_item (prevMap prev)) cur"
  by (simp add: aggregateData_def Let_def)

lemma make_item_base:
  "date (make_item pm c) = date c" "brand (make_item pm c) = brand c"
  "platform (make_item pm c) = platform c" "type (make_item pm c) = type c"
  "engagement (make_item pm c) = engagement c" "followers (make_item pm c) = followers c"
  "posts (make_item pm c) = posts c" "map_key (make_item pm c) = map_key c"
  by (simp_all add: make_item_def wide_record.defs map_key_def)

lemma make_item_None:
  "pm (map_key c) = None \<Longrightarrow>
   prevEng (make_item pm c) = Fin 0 \<and> prevFoll (make_item pm c) = Fin 0 \<and>
   wowEng (make_item pm c) = Fin 0 \<and> wowFoll (make_item pm c) = Fin 0"
  by (simp add: make_item_def wide_record.defs item.defs)

lemma make_item_Some:
  "pm (map_key c) = Some p \<Longrightarrow>
   prevEng (make_item pm c) = engagement p \<and> prevFoll (make_item pm c) = followers p \<and>
   wowEng (make_item pm c) =
     (if js_gt (engagement p) (Fin 0) then wow (engagement c) (engagement p) else Fin 0) \<and>
   wowFoll (make_item pm c) =
     (if js_gt (followers p) (Fin 0) then wow (followers c) (followers p) else Fin 0)"
  by (simp add: make_item_def wide_record.defs item.defs)

text \<open>
  Claim C1, as amended. In the aggregation engine, \<open>aggregateData\<close> gives one item per
  current-period record, in order. The record is matched with the entry that \<open>prevMap\<close>
  holds for its key \<open>brand-platform\<close>: the last previous-period record with that key.
  For a matched record, the week-over-week engagement percentage is
  \<open>(current - previous) / previous * 100\<close> when the previous engagement is greater than
  zero, and the number \<open>0\<close> otherwise, never \<open>NaN\<close> or an infinity from a division by
  zero; an unmatched record gets \<open>0\<close> as well. The follower growth follows the same
  formula on the follower counts. The rule is that of \<open>aggregateData\<close> only: the movers
  chart of the week-comparison dashboard has another one.
\<close>

theorem week_over_week_formula:
  "length (items (aggregateData cur prev)) = length cur \<and>
   (\<forall>i < length cur.
      let c = cur ! i; it = items (aggregateData cur prev) ! i
      in engagement it = engagement c \<and> followers it = followers c \<and>
         (case find (\<lambda>p. map_key p = map_key c) (rev prev) of
            None \<Rightarrow> wowEng it = Fin 0 \<and> wowFoll it = Fin 0
          | Some p \<Rightarrow>
              wowEng it =
                (if js_gt (engagement p) (Fin 0)
                 then js_mul (js_div (js_sub (engagement c) (engagement p)) (engagement p)) (Fin 100)
                 else Fin 0) \<and>
              wowFoll it =
                (if js_gt (followers p) (Fin 0)
                 then js_mul (js_div (js_sub (followers c) (followers p)) (followers p)) (Fin 100)
                 else Fin 0)))"
proof (intro conjI allI impI)
  show "length (items (aggregateData cur prev)) = length cur"
    by (simp add: items_aggregateData)
next
  fix i assume i: "i < length cur"
  have it: "items (aggregateData cur prev) ! i = make_item (prevMap prev) (cur ! i)"
    using i by (simp add: items_aggregateData)
  show "let c = cur ! i; it = items (aggregateData cur prev) ! i
      in engagement it = engagement c \<and> followers it = followers c \<and>
         (case find (\<lambda>p. map_key p = map_key c) (rev prev) of
            None \<Rightarrow> wowEng it = Fin 0 \<and> wowFoll it = Fin 0
          | Some p \<Rightarrow>
              wowEng it =
                (if js_gt (engagement p) (Fin 0)
                 then js_mul (js_div (js_sub (engagement c) (engagement p)) (engagement p)) (Fin 100)
                 else Fin 0) \<and>
              wowFoll it =
                (if js_gt (followers p) (Fin 0)
                 then js_mul (js_div (js_sub (followers c) (followers p)) (followers p)) (Fin 100)
                 else Fin 0))"
  proof (cases "find (\<lambda>p. map_key p = map_key (cur ! i)) (rev prev)")
    case None
    then have "prevMap prev (map_key (cur ! i)) = None" by (simp add: prevMap_find)
    from make_item_None [of "prevMap prev" "cur ! i", OF this] None show ?thesis
      by (simp add: it Let_def make_item_base)
  next
    case (Some p)
    then have "prevMap prev (map_key (cur ! i)) = Some p" by (simp add: prevMap_find)
    from make_item_Some [of "prevMap prev" "cur ! i" p, OF this] Some show ?thesis
      by (simp add: it Let_def make_item_base wow_def)
  qed
qed

lemmas arith_eval = js_sub_def wow_def js_gt_def js_ge_def truthy_def js_or_def

lemma sample_prevMap:
  "prevMap [acme_9, bolt_9, cato_9] (map_key acme_16) = Some acme_9"
  "prevMap [acme_9, bolt_9, cato_9] (map_key bolt_16) = Some bolt_9"
  by (simp_all add: prevMap_def map_key_def template_opt_def
        acme_9_def bolt_9_def cato_9_def acme_16_def bolt_16_def)

lemma sample_items:
  "items (aggregateData [acme_16, bolt_16] [acme_9, bolt_9, cato_9]) =
     [wide_record.extend acme_16 (item.fields (Fin 1000) (Fin 10000) (Fin 200) (Fin 200)),
      wide_record.extend bolt_16 (item.fields (Fin 2000) (Fin 20000) (Fin 100) (Fin 100))]"
  apply (simp add: items_aggregateData make_item_def sample_prevMap)
  apply (simp add: acme_9_def bolt_9_def acme_16_def bolt_16_def arith_eval double_eval)
  done

lemma sample_find:
  "find (\<lambda>p. map_key p = map_key acme_16) (rev [acme_9, bolt_9, cato_9]) = Some acme_9"
  "find (\<lambda>p. map_key p = map_key bolt_16) (rev [acme_9, bolt_9, cato_9]) = Some bolt_9"
  "find (\<lambda>p. map_key p = map_key acme_16) (rev [acme_idle]) = Some acme_idle"
  by (simp_all add: map_key_def template_opt_def
        acme_9_def bolt_9_def cato_9_def acme_16_def bolt_16_def acme_idle_def)

lemma sample_wow:
  "js_mul (js_div (js_sub (Fin 3000) (Fin 1000)) (Fin 1000)) (Fin 100) = Fin 200"
  "js_mul (js_div (js_sub (Fin 30000) (Fin 10000)) (Fin 10000)) (Fin 100) = Fin 200"
  "js_mul (js_div (js_sub (Fin 4000) (Fin 2000)) (Fin 2000)) (Fin 100) = Fin 100"
  "js_mul (js_div (js_sub (Fin 40000) (Fin 20000)) (Fin 20000)) (Fin 100) = Fin 100"
  by (simp_all add: js_sub_def double_eval)

theorem week_over_week_formula_witness:
  "wowEng (items (aggregateData [acme_16, bolt_16] [acme_9, bolt_9, cato_9]) ! 0) = Fin 200 \<and>
   wowFoll (items (aggregateData [acme_16, bolt_16] [acme_9, bolt_9, cato_9]) ! 0) = Fin 200 \<and>
   wowEng (items (aggregateData [acme_16] [acme_idle]) ! 0) = Fin 0 \<and>
   wowFoll (items (aggregateData [acme_16] [acme_idle]) ! 0) = Fin 0"
proof -
  have l2: "0 < length [acme_16, bolt_16]" and l1: "0 < length [acme_16]" by simp_all
  note w2 = week_over_week_formula [of "[acme_16, bolt_16]" "[acme_9, bolt_9, cato_9]",
      THEN conjunct2, rule_format, OF l2]
  note w1 = week_over_week_formula [of "[acme_16]" "[acme_idle]",
      THEN conjunct2, rule_format, OF l1]
  from w2 have a:
    "wowEng (items (aggregateData [acme_16, bolt_16] [acme_9, bolt_9, cato_9]) ! 0) = Fin 200 \<and>
     wowFoll (items (aggregateData [acme_16, bolt_16] [acme_9, bolt_9, cato_9]) ! 0) = Fin 200"
    unfolding Let_def nth_Cons_0 sample_find option.case
    by (simp add: acme_9_def acme_16_def js_gt_def sample_wow)
  from w1 have b:
    "wowEng (items (aggregateData [acme_16] [acme_idle]) ! 0) = Fin 0 \<and>
     wowFoll (items (aggregateData [acme_16] [acme_idle]) ! 0) = Fin 0"
    unfolding Let_def nth_Cons_0 sample_find option.case
    by (simp add: acme_idle_def js_gt_def)
  from a b show ?thesis by simp
qed

lemma week_sheet_engagement:
  "normalizeRow_num (Some ''0'') = Fin 0" "normalizeRow_num (Some ''-100'') = Fin (- 100)"
  "normalizeRow_num (Some ''500'') = Fin 500" "normalizeRow_num (Some ''300'') = Fin 300"
  by (simp_all add: normalizeRow_num_def parse_eval double_eval)

lemma week_sheet_rows:
  "col_week (normalizeRow (week_sheet_row w b e)) = Some w"
  "col_type (normalizeRow (week_sheet_row w b e)) = Some ''Casino''"
  "col_brand (normalizeRow (week_sheet_row w b e)) = Some b"
  "col_totalEngagement (normalizeRow (week_sheet_row w b e)) = normalizeRow_num (Some e)"
  by (simp_all add: normalizeRow_def week_sheet_row_def)

lemma week_sheet_filtered:
  "filterRows (rawRows week_sheet) ''W1'' ''ALL'' =
     [normalizeRow (week_sheet_row ''W1'' ''Acme'' ''0''),
      normalizeRow (week_sheet_row ''W1'' ''Cato'' ''-100'')]"
  "filterRows (rawRows week_sheet) ''W2'' ''ALL'' =
     [normalizeRow (week_sheet_row ''W2'' ''Acme'' ''500''),
      normalizeRow (week_sheet_row ''W2'' ''Cato'' ''500''),
      normalizeRow (week_sheet_row ''W2'' ''Bolt'' ''300'')]"
  by (simp_all add: filterRows_def rawRows_def week_sheet_def week_sheet_rows)

lemma week_sheet_arith:
  "js_add (Fin 0) (Fin 0) = Fin 0" "js_add (Fin 0) (Fin (- 100)) = Fin (- 100)"
  "js_add (Fin 0) (Fin 500) = Fin 500" "js_add (Fin 0) (Fin 300) = Fin 300"
  "js_sub (Fin 500) (Fin 0) = Fin 500" "js_sub (Fin 300) (Fin 0) = Fin 300"
  "js_sub (Fin 500) (Fin (- 100)) = Fin 600"
  "js_mul (js_div (Fin 600) (Fin (- 100))) (Fin 100) = Fin (- 600)"
  by (simp_all add: js_sub_def double_eval to_double_neg)

lemma brand_mover_zero_base:
  assumes "byBrandWeek_or0 m (brand_week_key b (Some weekA)) = Number (Fin 0)"
    and "byBrandWeek_or0 m (brand_week_key b (Some weekB)) = Number y" and "y \<noteq> Fin 0"
  shows "map pct (brand_mover m weekA weekB b) = [Fin 100]"
  using assms by (simp add: brand_mover_def Let_def)

text \<open>
  The movers chart of the week-comparison dashboard (\<open>renderMoversChart\<close>) does not
  give \<open>0\<close> for a base that is not positive. On the sheet \<open>week_sheet\<close>, compared from
  week \<open>W1\<close> to week \<open>W2\<close>, the base-week engagements are \<open>0\<close> for Acme, \<open>-100\<close> for
  Cato and none for Bolt: the chart shows \<open>100\<close> for Acme and for Bolt, and \<open>-600\<close>, the
  value of the formula, for Cato.
\<close>

theorem movers_chart_base_counterexample:
  "map (\<lambda>r. (col_brand r, col_totalEngagement r)) (filterRows (rawRows week_sheet) ''W1'' ''ALL'') =
     [(Some ''Acme'', Fin 0), (Some ''Cato'', Fin (- 100))] \<and>
   movers (filterRows (rawRows week_sheet) ''W1'' ''ALL'')
          (filterRows (rawRows week_sheet) ''W2'' ''ALL'') ''W1'' ''W2'' =
     [\<lparr> mover_brand = Some ''Acme'', diff = Fin 500, pct = Fin 100 \<rparr>,
      \<lparr> mover_brand = Some ''Cato'', diff = Fin 600, pct = Fin (- 600) \<rparr>,
      \<lparr> mover_brand = Some ''Bolt'', diff = Fin 300, pct = Fin 100 \<rparr>]"
  apply (simp only: week_sheet_filtered)
  apply (rule conjI)
   apply (simp add: week_sheet_rows week_sheet_engagement)
  apply (simp add: movers_def Let_def set_add_def week_sheet_rows week_sheet_engagement)
  apply (simp add: byBrandWeek_step_def byBrandWeek_or0_def brand_week_key_def template_opt_def
      object_prototype_keys_def week_sheet_rows week_sheet_engagement Let_def
      js_or_def truthy_def week_sheet_arith brand_mover_def double_eval to_double_neg)
  done

lemma sample_prevWeek: "prevWeek [''9-Nov'', ''16-Nov''] ''16-Nov'' = Some ''9-Nov''"
  by (simp add: prevWeek_def Let_def)

lemma sample_currentData:
  "currentData [acme_9, acme_16, bolt_9, bolt_16, cato_9, cato_16] ''16-Nov''
     [''Casino'', ''Fintech''] [''Acme'', ''Bolt'', ''Cato''] (Fin 2500) = [acme_16, bolt_16]"
  by (simp add: currentData_def js_ge_def
        acme_9_def bolt_9_def cato_9_def acme_16_def bolt_16_def cato_16_def)

lemma sample_prevData:
  "prevData [acme_9, acme_16, bolt_9, bolt_16, cato_9, cato_16] (Some ''9-Nov'')
     [''Casino'', ''Fintech''] [''Acme'', ''Bolt'', ''Cato''] = [acme_9, bolt_9, cato_9]"
  by (simp add: prevData_def
        acme_9_def bolt_9_def cato_9_def acme_16_def bolt_16_def cato_16_def)

lemma sample_updateDashboard:
  "updateDashboard (parseRawData sample_sheet) ''16-Nov''
     [''Casino'', ''Fintech''] [''Acme'', ''Bolt'', ''Cato''] (Fin 2500) =
   aggregateData [acme_16, bolt_16] [acme_9, bolt_9, cato_9]"
  by (simp add: updateDashboard_def sample_rawData sample_weeks sample_prevWeek
        sample_currentData sample_prevData)

lemma prevMap_member:
  "p \<in> set prev \<Longrightarrow> prevMap prev (map_key p) \<noteq> None"
  by (auto simp add: prevMap_find find_None_iff)

text \<open>
  Claim C10. The minimum-engagement threshold of \<open>updateDashboard\<close> applies to the
  current period only. Every item of the aggregate has an engagement of at least the
  threshold, and a record below it is not among the current records. A record of the
  previous week whose type and brand are selected is among the previous records and has
  an entry in the comparison lookup whatever its engagement, so it serves as a baseline
  even when it is below the threshold.
\<close>

theorem threshold_on_current_only:
  "(\<forall>it \<in> set (items (updateDashboard st sw ts bs minEng)). js_ge (engagement it) minEng) \<and>
   (\<forall>d \<in> set (rawData st).
      \<not> js_ge (engagement d) minEng \<longrightarrow> d \<notin> set (currentData (rawData st) sw ts bs minEng)) \<and>
   (\<forall>w. prevWeek (weeks st) sw = Some w \<and> w \<noteq> [] \<longrightarrow>
      (\<forall>p \<in> set (rawData st).
         date p = w \<and> includes_opt ts (type p) \<and> brand p \<in> set bs \<longrightarrow>
         p \<in> set (prevData (rawData st) (prevWeek (weeks st) sw) ts bs) \<and>
         prevMap (prevData (rawData st) (prevWeek (weeks st) sw) ts bs) (map_key p) \<noteq> None))"
proof (intro conjI ballI allI impI)
  fix it
  assume "it \<in> set (items (updateDashboard st sw ts bs minEng))"
  then obtain c where "c \<in> set (currentData (rawData st) sw ts bs minEng)"
    and "it = make_item (prevMap (prevData (rawData st) (prevWeek (weeks st) sw) ts bs)) c"
    by (auto simp add: updateDashboard_def items_aggregateData)
  then show "js_ge (engagement it) minEng"
    by (simp add: currentData_def make_item_base)
next
  fix d
  assume "d \<in> set (rawData st)" "\<not> js_ge (engagement d) minEng"
  then show "d \<notin> set (currentData (rawData st) sw ts bs minEng)"
    by (simp add: currentData_def)
next
  fix w p
  assume w: "prevWeek (weeks st) sw = Some w \<and> w \<noteq> []"
    and p: "p \<in> set (rawData st)"
      "date p = w \<and> includes_opt ts (type p) \<and> brand p \<in> set bs"
  then show m: "p \<in> set (prevData (rawData st) (prevWeek (weeks st) sw) ts bs)"
    by (simp add: prevData_def)
  then show "prevMap (prevData (rawData st) (prevWeek (weeks st) sw) ts bs) (map_key p) \<noteq> None"
    by (rule prevMap_member)
qed

theorem threshold_on_current_only_witness:
  "js_lt (engagement bolt_9) (Fin 2500) \<and>
   bolt_9 \<in> set (prevData (rawData (parseRawData sample_sheet))
                   (prevWeek (weeks (parseRawData sample_sheet)) ''16-Nov'')
                   [''Casino'', ''Fintech''] [''Acme'', ''Bolt'', ''Cato'']) \<and>
   map prevEng (items (updateDashboard (parseRawData sample_sheet) ''16-Nov''
                   [''Casino'', ''Fintech''] [''Acme'', ''Bolt'', ''Cato''] (Fin 2500)))
     = [Fin 1000, Fin 2000] \<and>
   cato_16 \<in> set (rawData (parseRawData sample_sheet)) \<and>
   cato_16 \<notin> set (currentData (rawData (parseRawData sample_sheet)) ''16-Nov''
                     [''Casino'', ''Fintech''] [''Acme'', ''Bolt'', ''Cato''] (Fin 2500))"
proof -
  note t = threshold_on_current_only [of "parseRawData sample_sheet" "''16-Nov''"
      "[''Casino'', ''Fintech'']" "[''Acme'', ''Bolt'', ''Cato'']" "Fin 2500"]
  have pw: "prevWeek (weeks (parseRawData sample_sheet)) ''16-Nov'' = Some ''9-Nov'' \<and> ''9-Nov'' \<noteq> []"
    by (simp add: sample_weeks sample_prevWeek)
  have b: "bolt_9 \<in> set (rawData (parseRawData sample_sheet))"
    and c: "cato_16 \<in> set (rawData (parseRawData sample_sheet))"
    by (simp_all add: sample_rawData)
  have bsel: "date bolt_9 = ''9-Nov'' \<and> includes_opt [''Casino'', ''Fintech''] (type bolt_9) \<and>
              brand bolt_9 \<in> set [''Acme'', ''Bolt'', ''Cato'']"
    by (simp add: bolt_9_def)
  have blow: "js_lt (engagement bolt_9) (Fin 2500)"
    by (simp add: bolt_9_def)
  have clow: "\<not> js_ge (engagement cato_16) (Fin 2500)"
    by (simp add: cato_16_def js_ge_def)
  from t pw b bsel
  have 1: "bolt_9 \<in> set (prevData (rawData (parseRawData sample_sheet))
                   (prevWeek (weeks (parseRawData sample_sheet)) ''16-Nov'')
                   [''Casino'', ''Fintech''] [''Acme'', ''Bolt'', ''Cato''])"
    by blast
  from t c clow
  have 2: "cato_16 \<notin> set (currentData (rawData (parseRawData sample_sheet)) ''16-Nov''
                     [''Casino'', ''Fintech''] [''Acme'', ''Bolt'', ''Cato''] (Fin 2500))"
    by blast
  have 3: "map prevEng (items (updateDashboard (parseRawData sample_sheet) ''16-Nov''
                   [''Casino'', ''Fintech''] [''Acme'', ''Bolt'', ''Cato''] (Fin 2500)))
     = [Fin 1000, Fin 2000]"
    by (simp add: sample_updateDashboard sample_items wide_record.defs item.defs)
  from blow 1 2 3 c show ?thesis by blast
qed

lemma to_double_nat: "n \<le> 2 ^ 53 \<Longrightarrow> to_double (real n) = Fin (real n)"
proof (cases "n = 0")
  case True
  then show ?thesis by (simp add: to_double_zero)
next
  case False
  assume "n \<le> 2 ^ 53"
  then have "int n \<le> 2 ^ 53" by (metis of_nat_le_iff of_nat_numeral of_nat_power)
  with False to_double_int_pos [of "int n"] show ?thesis by simp
qed

lemma to_double_nat_add:
  "a + b \<le> 2 ^ 53 \<Longrightarrow> to_double (real a + real b) = Fin (real a + real b)"
  using to_double_nat [of "a + b"] by simp

lemma foldl_js_add_nat:
  "a + sum_list ns \<le> 2 ^ 53 \<Longrightarrow>
   foldl js_add (Fin (real a)) (map (\<lambda>n. Fin (real n)) ns) = Fin (real (a + sum_list ns))"
proof (induction ns arbitrary: a)
  case Nil
  show ?case by simp
next
  case (Cons n ns)
  then have 1: "a + n \<le> 2 ^ 53" and 2: "(a + n) + sum_list ns \<le> 2 ^ 53" by simp_all
  show ?case
    using Cons.IH [OF 2] by (simp add: to_double_nat_add [OF 1] add.assoc)
qed

lemma reduce_sum_nat:
  "map f xs = map (\<lambda>n. Fin (real n)) ns \<Longrightarrow> sum_list ns \<le> 2 ^ 53 \<Longrightarrow>
   reduce_sum f xs = Fin (real (sum_list ns))"
  using foldl_js_add_nat [of 0 ns] by (simp add: reduce_sum_map)

lemma update_eng_nat:
  assumes "distinct (map fst bt)"
    and "map (\<lambda>(k, st). eng st) bt = map (\<lambda>n. Fin (real n)) ms"
    and "sum_list ms + n \<le> 2 ^ 53"
    and "engagement i = Fin (real n)"
  shows "\<exists>ms'. map (\<lambda>(k, st). eng st)
               (map (\<lambda>(k', st). if k' = k then (k', add_stats i st) else (k', st)) bt)
             = map (\<lambda>n. Fin (real n)) ms' \<and>
             sum_list ms' = sum_list ms + (if k \<in> fst ` set bt then n else 0)"
  using assms(1-3)
proof (induction bt arbitrary: ms)
  case Nil
  then show ?case by simp
next
  case (Cons e bt)
  obtain k' st where e: "e = (k', st)" by (cases e)
  from Cons.prems(2) obtain m ms0 where ms: "ms = m # ms0"
    and m: "eng st = Fin (real m)"
    and rest: "map (\<lambda>(k, st). eng st) bt = map (\<lambda>n. Fin (real n)) ms0"
    by (cases ms) (auto simp add: e)
  have d: "distinct (map fst bt)" and nk: "k' \<notin> fst ` set bt"
    using Cons.prems(1) by (auto simp add: e)
  have b: "sum_list ms0 + n \<le> 2 ^ 53" and bm: "m + n \<le> 2 ^ 53"
    using Cons.prems(3) by (simp_all add: ms)
  from Cons.IH [OF d rest b] obtain ms1 where
    ms1: "map (\<lambda>(k, st). eng st)
            (map (\<lambda>(k', st). if k' = k then (k', add_stats i st) else (k', st)) bt)
          = map (\<lambda>n. Fin (real n)) ms1"
      "sum_list ms1 = sum_list ms0 + (if k \<in> fst ` set bt then n else 0)"
    by blast
  show ?case
  proof (cases "k' = k")
    case True
    have "eng (add_stats i st) = Fin (real (m + n))"
      by (simp add: add_stats_def m assms(4) to_double_nat_add [OF bm])
    moreover have "k \<notin> fst ` set bt" using nk True by simp
    ultimately show ?thesis
      using ms1 True by (intro exI [of _ "(m + n) # ms1"]) (simp add: e ms)
  next
    case False
    then show ?thesis
      using ms1 m by (intro exI [of _ "m # ms1"]) (auto simp add: e ms)
  qed
qed

lemma byType_step_nat:
  assumes "distinct (map fst bt)"
    and "map (\<lambda>(k, st). eng st) bt = map (\<lambda>n. Fin (real n)) ms"
    and "sum_list ms + n \<le> 2 ^ 53"
    and "engagement i = Fin (real n)"
    and "template_opt (type i) \<notin> set object_prototype_keys"
  shows "distinct (map fst (byType_step bt i)) \<and>
         (\<exists>ms'. map (\<lambda>(k, st). eng st) (byType_step bt i) = map (\<lambda>n. Fin (real n)) ms' \<and>
                sum_list ms' = sum_list ms + n)"
proof -
  define k where "k = template_opt (type i)"
  define bt' where "bt' = (if k \<in> fst ` set bt then bt
      else bt @ [(k, \<lparr> eng = Fin 0, posts_sum = Fin 0, count = Fin 0 \<rparr>)])"
  define ms' where "ms' = (if k \<in> fst ` set bt then ms else ms @ [0])"
  have step: "byType_step bt i =
      map (\<lambda>(k', st). if k' = k then (k', add_stats i st) else (k', st)) bt'"
    using assms(5) by (simp add: byType_step_def Let_def k_def bt'_def)
  have d': "distinct (map fst bt')" using assms(1) by (auto simp add: bt'_def)
  have e': "map (\<lambda>(k, st). eng st) bt' = map (\<lambda>n. Fin (real n)) ms'"
    using assms(2) by (simp add: bt'_def ms'_def)
  have s': "sum_list ms' = sum_list ms" by (simp add: ms'_def)
  have k': "k \<in> fst ` set bt'" by (simp add: bt'_def)
  have b': "sum_list ms' + n \<le> 2 ^ 53" using assms(3) by (simp add: s')
  from update_eng_nat [OF d' e' b' assms(4), of k] k' obtain ms1 where
    "map (\<lambda>(k, st). eng st) (byType_step bt i) = map (\<lambda>n. Fin (real n)) ms1"
    "sum_list ms1 = sum_list ms + n"
    by (auto simp add: step s')
  moreover have "map fst (byType_step bt i) = map fst bt'"
    by (simp add: step comp_def case_prod_unfold if_distrib cong: if_cong)
  ultimately show ?thesis using d' by auto
qed

lemma foldl_byType_nat:
  assumes "map engagement its = map (\<lambda>n. Fin (real n)) ns"
    and "\<forall>i \<in> set its. template_opt (type i) \<notin> set object_prototype_keys"
    and "distinct (map fst bt)"
    and "map (\<lambda>(k, st). eng st) bt = map (\<lambda>n. Fin (real n)) ms"
    and "sum_list ms + sum_list ns \<le> 2 ^ 53"
  shows "\<exists>ms'. map (\<lambda>(k, st). eng st) (foldl byType_step bt its) = map (\<lambda>n. Fin (real n)) ms' \<and>
               sum_list ms' = sum_list ms + sum_list ns"
  using assms
proof (induction its arbitrary: bt ms ns)
  case Nil
  then show ?case by auto
next
  case (Cons i its)
  from Cons.prems(1) obtain n ns0 where ns: "ns = n # ns0"
    and n: "engagement i = Fin (real n)"
    and rest: "map engagement its = map (\<lambda>n. Fin (real n)) ns0"
    by (cases ns) auto
  have ok: "template_opt (type i) \<notin> set object_prototype_keys"
    and oks: "\<forall>i \<in> set its. template_opt (type i) \<notin> set object_prototype_keys"
    using Cons.prems(2) by simp_all
  have b: "sum_list ms + n \<le> 2 ^ 53" using Cons.prems(5) by (simp add: ns)
  from byType_step_nat [OF Cons.prems(3) Cons.prems(4) b n ok] obtain ms1 where
    d1: "distinct (map fst (byType_step bt i))"
    and e1: "map (\<lambda>(k, st). eng st) (byType_step bt i) = map (\<lambda>n. Fin (real n)) ms1"
    and s1: "sum_list ms1 = sum_list ms + n"
    by blast
  have b1: "sum_list ms1 + sum_list ns0 \<le> 2 ^ 53" using Cons.prems(5) by (simp add: ns s1)
  from Cons.IH [OF rest oks d1 e1 b1] show ?case
    by (simp add: s1 ns add.assoc)
qed

text \<open>
  Claim C6, as amended. When the engagement values of the filtered records are whole
  numbers, not negative, whose total is at most \<open>2\<^sup>5\<^sup>3\<close> (so that every addition is
  exact), and no record's type names a property of \<open>Object.prototype\<close>, the sum of the
  per-category engagement totals of \<open>aggregateData\<close> equals the total engagement, and
  both are the sum of the values.
\<close>

theorem category_totals_sum_amended:
  "map engagement cur = map (\<lambda>n. Fin (real n)) ns \<and> sum_list ns \<le> 2 ^ 53 \<and>
   (\<forall>c \<in> set cur. template_opt (type c) \<notin> set object_prototype_keys) \<longrightarrow>
   category_total (aggregateData cur prev) = totalEng (aggregateData cur prev) \<and>
   totalEng (aggregateData cur prev) = Fin (real (sum_list ns))"
proof
  assume a: "map engagement cur = map (\<lambda>n. Fin (real n)) ns \<and> sum_list ns \<le> 2 ^ 53 \<and>
   (\<forall>c \<in> set cur. template_opt (type c) \<notin> set object_prototype_keys)"
  define its where "its = map (make_item (prevMap prev)) cur"
  have e: "map engagement its = map (\<lambda>n. Fin (real n)) ns"
    using a by (simp add: its_def comp_def make_item_base)
  have t: "\<forall>i \<in> set its. template_opt (type i) \<notin> set object_prototype_keys"
    using a by (simp add: its_def make_item_base)
  have tot: "totalEng (aggregateData cur prev) = Fin (real (sum_list ns))"
    using reduce_sum_nat [OF e] a by (simp add: aggregateData_def Let_def its_def)
  from foldl_byType_nat [OF e t, of "[]" "[]"] a obtain ms where
    ms: "map (\<lambda>(k, st). eng st) (foldl byType_step [] its) = map (\<lambda>n. Fin (real n)) ms"
      "sum_list ms = sum_list ns"
    by auto
  have "category_total (aggregateData cur prev) = reduce_sum (\<lambda>(k, st). eng st) (foldl byType_step [] its)"
    by (simp add: category_total_def aggregateData_def Let_def its_def)
  also have "\<dots> = Fin (real (sum_list ms))"
    using reduce_sum_nat [OF ms(1)] a by (simp add: ms(2))
  finally show "category_total (aggregateData cur prev) = totalEng (aggregateData cur prev) \<and>
   totalEng (aggregateData cur prev) = Fin (real (sum_list ns))"
    by (simp add: tot ms(2))
qed

lemma sample_type_keys:
  "template_opt (type acme_16) \<notin> set object_prototype_keys"
  "template_opt (type bolt_16) \<notin> set object_prototype_keys"
  by (simp_all add: acme_16_def bolt_16_def template_opt_def object_prototype_keys_def)

theorem category_totals_sum_amended_witness:
  "category_total (updateDashboard (parseRawData sample_sheet) ''16-Nov''
      [''Casino'', ''Fintech''] [''Acme'', ''Bolt'', ''Cato''] (Fin 2500)) = Fin 7000 \<and>
   totalEng (updateDashboard (parseRawData sample_sheet) ''16-Nov''
      [''Casino'', ''Fintech''] [''Acme'', ''Bolt'', ''Cato''] (Fin 2500)) = Fin 7000"
proof -
  have e: "map engagement [acme_16, bolt_16] = map (\<lambda>n. Fin (real n)) [3000, 4000]"
    by (simp add: acme_16_def bolt_16_def)
  have s: "sum_list [3000, 4000 :: nat] \<le> 2 ^ 53" by simp
  have t: "\<forall>c \<in> set [acme_16, bolt_16]. template_opt (type c) \<notin> set object_prototype_keys"
    by (simp add: sample_type_keys)
  from category_totals_sum_amended [of "[acme_16, bolt_16]" "[3000, 4000]" "[acme_9, bolt_9, cato_9]"] e s t
  have "category_total (aggregateData [acme_16, bolt_16] [acme_9, bolt_9, cato_9]) =
          totalEng (aggregateData [acme_16, bolt_16] [acme_9, bolt_9, cato_9]) \<and>
        totalEng (aggregateData [acme_16, bolt_16] [acme_9, bolt_9, cato_9]) =
          Fin (real (sum_list [3000, 4000]))"
    by blast
  then show ?thesis by (simp add: sample_updateDashboard)
qed

lemmas raw_double = to_double_def exponent_def pow2_def round_half_even_def compute_bitlen Let_def

lemma big_doubles:
  "to_double 10000000000000000 = Fin 10000000000000000"
  "to_double 10000000000000001 = Fin 10000000000000000"
  "to_double 10000000000000002 = Fin 10000000000000002"
  "to_double 100000000000000000 = Fin 100000000000000000"
  by (simp_all add: raw_double)

lemma small_posts: "Math_ceil (to_double (1 / 1000)) = Fin 1"
  by (simp add: raw_double)

lemma rounding_cells:
  "date_cell_value (Some ''1'') = Fin 1"
  "date_cell_value (Some ''10000000000000000'') = Fin 10000000000000000"
  by (simp_all add: date_cell_value_def parse_eval double_eval big_doubles)

lemma rounding_rawData:
  "rawData (parseRawData rounding_sheet) = [one_a, big_b, one_c] \<and>
   weeks (parseRawData rounding_sheet) = [''9-Nov'']"
  by (simp add: parseRawData_def rounding_sheet_def date_eval row_records_def
        row_brand_def make_record_def rounding_cells double_eval big_doubles small_posts
        one_a_def big_b_def one_c_def)

lemma rounding_updateDashboard:
  "updateDashboard (parseRawData rounding_sheet) ''9-Nov'' [''A'', ''B''] [''Acme'', ''Bolt'', ''Cato''] (Fin 0)
     = aggregateData [one_a, big_b, one_c] []"
  by (simp add: updateDashboard_def rounding_rawData prevWeek_def prevData_def currentData_def
        js_ge_def one_a_def big_b_def one_c_def)

lemma rounding_aggregate:
  "totalEng (aggregateData [one_a, big_b, one_c] []) = Fin 10000000000000000"
  "map (\<lambda>(k, st). (k, eng st)) (byType (aggregateData [one_a, big_b, one_c] [])) =
     [(''A'', Fin 2), (''B'', Fin 10000000000000000)]"
  "category_total (aggregateData [one_a, big_b, one_c] []) = Fin 10000000000000002"
  by (simp_all add: aggregateData_def category_total_def reduce_sum_def make_item_base
        byType_step_def add_stats_def template_opt_def object_prototype_keys_def
        one_a_def big_b_def one_c_def double_eval big_doubles)

theorem category_totals_rounding_counterexample:
  "totalEng (updateDashboard (parseRawData rounding_sheet) ''9-Nov''
      [''A'', ''B''] [''Acme'', ''Bolt'', ''Cato''] (Fin 0)) = Fin 10000000000000000 \<and>
   category_total (updateDashboard (parseRawData rounding_sheet) ''9-Nov''
      [''A'', ''B''] [''Acme'', ''Bolt'', ''Cato''] (Fin 0)) = Fin 10000000000000002"
  by (simp only: rounding_updateDashboard rounding_aggregate simp_thms)

lemma prototype_key_category:
  "totalEng (aggregateData [acme_16 \<lparr> type := Some ''constructor'' \<rparr>] []) = Fin 3000 \<and>
   byType (aggregateData [acme_16 \<lparr> type := Some ''constructor'' \<rparr>] []) = [] \<and>
   category_total (aggregateData [acme_16 \<lparr> type := Some ''constructor'' \<rparr>] []) = Fin 0"
  by (simp add: aggregateData_def category_total_def reduce_sum_def make_item_base
        byType_step_def template_opt_def object_prototype_keys_def acme_16_def double_eval)

section \<open>Claims about the long-layout dashboard\<close>

lemma to_double_9_10: "to_double (9 / 10) = Fin (8106479329266893 / 9007199254740992)"
  by (simp add: to_double_def exponent_def pow2_def round_half_even_def compute_bitlen Let_def)

lemma num_zero_cell: "num idle_long_row ''Total Engagement'' = Fin 0"
  by (simp add: num_def idle_long_row_def parse_eval double_eval js_or_def truthy_def)

lemma num_absent: "map_of r key = None \<Longrightarrow> num r key = Fin 0"
  by (simp add: num_def parse_eval double_eval js_or_def truthy_def)

lemma idle_engagement:
  "canonical.engagement (process_row idle_long_row) = Fin 0"
  "canonical.prevEngagement (process_row idle_long_row) = Fin 0"
proof -
  have a: "num idle_long_row ''Followers (Current Week)'' = Fin 0"
    "num idle_long_row ''Total Engagement (Prev)'' = Fin 0"
    by (simp_all add: num_absent idle_long_row_def)
  have d: "filter dateRegex (map fst idle_long_row) = []"
    by (simp add: idle_long_row_def date_eval)
  have t: "totalEng_of_row idle_long_row = Fin 0"
    by (simp add: totalEng_of_row_def Let_def num_zero_cell a d)
  show "canonical.engagement (process_row idle_long_row) = Fin 0"
    by (simp add: process_row_def Let_def t)
  show "canonical.prevEngagement (process_row idle_long_row) = Fin 0"
    by (simp add: process_row_def Let_def t a to_double_9_10 js_or_def truthy_def double_eval)
qed

text \<open>
  Claim C4 asks that a rate whose divisor is \<open>0\<close> be \<open>0\<close> in every value handed to the
  rendering. The percentage change that \<open>renderIndustryOverview\<close> prints is not: when
  the filtered set is empty, or holds a brand without engagement, the previous total is
  \<open>0\<close>, the division is \<open>0 / 0\<close>, and the printed change is \<open>NaN\<close>.
\<close>

theorem pct_change_without_baseline:
  "pctChange [] = ''NaN'' \<and> pctChange (processData [idle_long_row]) = ''NaN''"
  by (simp add: pctChange_def overview_totalEng_def overview_prevEng_def reduce_sum_def
        processData_def idle_engagement js_sub_def double_eval signed_inf_def)

text \<open>
  The engagement per post of the casino table has the guard: \<open>0 / 0\<close> prints as \<open>0\<close>.
  The share of a category in the industry table has none: for a category and a total
  of no engagement it prints \<open>NaN\<close>.
\<close>

lemma casino_guard:
  "engagement i = Fin 0 \<Longrightarrow> posts i = Fin 0 \<Longrightarrow> casino_eng_per_post i = Fin 0"
  by (simp add: casino_eng_per_post_def signed_inf_def js_or_def truthy_def)

lemma industry_share_without_engagement:
  "eng st = Fin 0 \<Longrightarrow> totalEng agg = Fin 0 \<Longrightarrow> industry_share agg st = ''NaN''"
  by (simp add: industry_share_def signed_inf_def)

lemma js_sub_self_not_positive: "\<not> js_gt (js_sub a a) (Fin 0)"
  by (cases a) (simp_all add: js_sub_def js_gt_def to_double_zero)

lemma filter_insert_by:
  assumes "\<And>y. js_gt (cmp x y) (Fin 0) \<Longrightarrow> f x \<noteq> f y"
  shows "filter (\<lambda>d. f d = k) (insert_by cmp x ys) =
         (if f x = k then x # filter (\<lambda>d. f d = k) ys else filter (\<lambda>d. f d = k) ys)"
  using assms by (induction ys) auto

lemma filter_js_sort:
  assumes "\<And>x y. js_gt (cmp x y) (Fin 0) \<Longrightarrow> f x \<noteq> f y"
  shows "filter (\<lambda>d. f d = k) (js_sort cmp xs) = filter (\<lambda>d. f d = k) xs"
proof (induction xs)
  case Nil
  show ?case by (simp add: js_sort_def)
next
  case (Cons x xs)
  have "js_sort cmp (x # xs) = insert_by cmp x (js_sort cmp xs)"
    by (simp add: js_sort_def)
  then show ?case
    using Cons filter_insert_by [of cmp x f k "js_sort cmp xs"] assms by simp
qed

lemma by_engagement_desc_strict:
  "js_gt (by_engagement_desc x y) (Fin 0) \<Longrightarrow> canonical.engagement x \<noteq> canonical.engagement y"
  using js_sub_self_not_positive [of "canonical.engagement x"]
  by (auto simp add: by_engagement_desc_def)

lemma insert_by_tied:
  "\<forall>y \<in> set ys. \<not> js_gt (cmp x y) (Fin 0) \<Longrightarrow> insert_by cmp x ys = x # ys"
  by (cases ys) simp_all

lemma js_sort_tied:
  "\<forall>x \<in> set xs. \<forall>y \<in> set xs. \<not> js_gt (cmp x y) (Fin 0) \<Longrightarrow> js_sort cmp xs = xs"
proof (induction xs)
  case Nil
  show ?case by (simp add: js_sort_def)
next
  case (Cons x xs)
  then have "js_sort cmp xs = xs" by simp
  moreover have "js_sort cmp (x # xs) = insert_by cmp x (js_sort cmp xs)"
    by (simp add: js_sort_def)
  ultimately show ?case using Cons.prems by (simp add: insert_by_tied)
qed

lemma prefix_filter_take: "prefix (filter P (take n ys)) (filter P ys)"
proof -
  have "filter P ys = filter P (take n ys) @ filter P (drop n ys)"
    by (simp only: filter_append [symmetric] append_take_drop_id)
  then show ?thesis by (simp add: prefix_def)
qed

lemma filter_filter_key:
  "filter (\<lambda>d. f d = k) (filter (\<lambda>d. q (f d)) xs) =
     (if q k then filter (\<lambda>d. f d = k) xs else [])"
  by (induction xs) auto

lemma prefix_filter_ranking:
  assumes "\<And>x y. js_gt (cmp x y) (Fin 0) \<Longrightarrow> f x \<noteq> f y"
  shows "prefix (filter (\<lambda>d. f d = k) (take n (js_sort cmp (filter (\<lambda>d. q (f d)) xs))))
                (filter (\<lambda>d. f d = k) xs)"
proof -
  have a: "prefix (filter (\<lambda>d. f d = k) (take n (js_sort cmp (filter (\<lambda>d. q (f d)) xs))))
                  (filter (\<lambda>d. f d = k) (js_sort cmp (filter (\<lambda>d. q (f d)) xs)))"
    by (rule prefix_filter_take)
  have b: "filter (\<lambda>d. f d = k) (js_sort cmp (filter (\<lambda>d. q (f d)) xs)) =
           filter (\<lambda>d. f d = k) (filter (\<lambda>d. q (f d)) xs)"
    by (rule filter_js_sort) (rule assms)
  have c: "prefix (filter (\<lambda>d. f d = k) (filter (\<lambda>d. q (f d)) xs)) (filter (\<lambda>d. f d = k) xs)"
    by (cases "q k")
       (simp_all only: filter_filter_key [of f k q xs] if_True if_False prefix_order.refl Nil_prefix)
  from a have "prefix (filter (\<lambda>d. f d = k) (take n (js_sort cmp (filter (\<lambda>d. q (f d)) xs))))
                      (filter (\<lambda>d. f d = k) (filter (\<lambda>d. q (f d)) xs))"
    by (simp only: b)
  then show ?thesis using c by (rule prefix_order.trans)
qed

lemma js_sub_strict:
  "js_gt (js_sub (f y) (f x)) (Fin 0) \<Longrightarrow> f x \<noteq> f y"
  "js_gt (js_sub (f x) (f y)) (Fin 0) \<Longrightarrow> f x \<noteq> f y"
  by (metis js_sub_self_not_positive)+

text \<open>
  Claim C7, as amended. In every top-N ranking (the top five of the overview and the
  top ten casino items by engagement, the ten largest gainers and decliners by
  week-over-week engagement) the sort is stable: the tied records that reach the
  ranking are the first of the tied records of the input, in their input order.
  Records that are all tied are ranked in input order, so reversing the input order of
  tied records reverses their order in the ranking.
\<close>

theorem ranking_ties_keep_input_order:
  "filter (\<lambda>d. canonical.engagement d = k) (js_sort by_engagement_desc xs) =
     filter (\<lambda>d. canonical.engagement d = k) xs \<and>
   prefix (filter (\<lambda>d. canonical.engagement d = k) (top5 xs))
          (filter (\<lambda>d. canonical.engagement d = k) xs) \<and>
   prefix (filter (\<lambda>i. engagement i = k) (casino_top10 its))
          (filter (\<lambda>i. engagement i = k) its) \<and>
   prefix (filter (\<lambda>i. wowEng i = k) (gainers data)) (filter (\<lambda>i. wowEng i = k) (items data)) \<and>
   prefix (filter (\<lambda>i. wowEng i = k) (decliners data)) (filter (\<lambda>i. wowEng i = k) (items data)) \<and>
   ((\<forall>d \<in> set xs. canonical.engagement d = k) \<longrightarrow>
      top5 xs = take 5 xs \<and> top5 (rev xs) = take 5 (rev xs))"
proof (intro conjI impI)
  show st: "filter (\<lambda>d. canonical.engagement d = k) (js_sort by_engagement_desc xs) =
     filter (\<lambda>d. canonical.engagement d = k) xs"
    by (rule filter_js_sort) (rule by_engagement_desc_strict)
  show "prefix (filter (\<lambda>d. canonical.engagement d = k) (top5 xs))
          (filter (\<lambda>d. canonical.engagement d = k) xs)"
    using prefix_filter_take [of "\<lambda>d. canonical.engagement d = k" 5 "js_sort by_engagement_desc xs"]
    by (simp add: top5_def st)
  show "prefix (filter (\<lambda>i. engagement i = k) (casino_top10 its))
          (filter (\<lambda>i. engagement i = k) its)"
    using prefix_filter_ranking [of by_item_engagement_desc engagement k 10 "\<lambda>e. True" its]
    by (simp add: casino_top10_def by_item_engagement_desc_def js_sub_strict)
  show "prefix (filter (\<lambda>i. wowEng i = k) (gainers data)) (filter (\<lambda>i. wowEng i = k) (items data))"
    unfolding gainers_def
    by (rule prefix_filter_ranking [of _ wowEng k 10 "\<lambda>w. js_gt w (Fin 20)"])
       (rule js_sub_strict)
  show "prefix (filter (\<lambda>i. wowEng i = k) (decliners data)) (filter (\<lambda>i. wowEng i = k) (items data))"
    unfolding decliners_def
    by (rule prefix_filter_ranking [of _ wowEng k 10 "\<lambda>w. js_lt w (Fin (- 20))"])
       (rule js_sub_strict)
next
  assume tie: "\<forall>d \<in> set xs. canonical.engagement d = k"
  have "\<forall>x \<in> set xs. \<forall>y \<in> set xs. \<not> js_gt (by_engagement_desc x y) (Fin 0)"
    using tie js_sub_self_not_positive [of k] by (simp add: by_engagement_desc_def)
  then have a: "js_sort by_engagement_desc xs = xs" by (rule js_sort_tied)
  have "\<forall>x \<in> set (rev xs). \<forall>y \<in> set (rev xs). \<not> js_gt (by_engagement_desc x y) (Fin 0)"
    using tie js_sub_self_not_positive [of k] by (simp add: by_engagement_desc_def)
  then have b: "js_sort by_engagement_desc (rev xs) = rev xs" by (rule js_sort_tied)
  show "top5 xs = take 5 xs" by (simp add: top5_def a)
  show "top5 (rev xs) = take 5 (rev xs)" by (simp add: top5_def b)
qed

lemma tie_rows:
  "canonical.engagement (process_row tie_row_a) = Fin 500"
  "canonical.engagement (process_row tie_row_b) = Fin 500"
  "canonical.brand (process_row tie_row_a) = Str ''Acme''"
  "canonical.brand (process_row tie_row_b) = Str ''Bolt''"
proof -
  have a: "num tie_row_a ''Total Engagement'' = Fin 500" "num tie_row_b ''Total Engagement'' = Fin 500"
    by (simp_all add: num_def tie_row_a_def tie_row_b_def parse_eval double_eval js_or_def truthy_def)
  have t: "totalEng_of_row tie_row_a = Fin 500" "totalEng_of_row tie_row_b = Fin 500"
    by (simp_all add: totalEng_of_row_def Let_def a)
  show "canonical.engagement (process_row tie_row_a) = Fin 500"
    "canonical.engagement (process_row tie_row_b) = Fin 500"
    by (simp_all add: process_row_def Let_def t)
  show "canonical.brand (process_row tie_row_a) = Str ''Acme''"
    "canonical.brand (process_row tie_row_b) = Str ''Bolt''"
    by (simp_all add: process_row_def Let_def tie_row_a_def tie_row_b_def)
qed

theorem ranking_ties_keep_input_order_witness:
  "map canonical.brand (top5 (processData [tie_row_a, tie_row_b])) = [Str ''Acme'', Str ''Bolt''] \<and>
   map canonical.brand (top5 (rev (processData [tie_row_a, tie_row_b]))) = [Str ''Bolt'', Str ''Acme'']"
proof -
  have tie: "\<forall>d \<in> set (processData [tie_row_a, tie_row_b]). canonical.engagement d = Fin 500"
    by (simp add: processData_def tie_rows)
  from ranking_ties_keep_input_order [of "Fin 500" "processData [tie_row_a, tie_row_b]" "[]" "aggregateData [] []"] tie
  have "top5 (processData [tie_row_a, tie_row_b]) = take 5 (processData [tie_row_a, tie_row_b]) \<and>
        top5 (rev (processData [tie_row_a, tie_row_b])) = take 5 (rev (processData [tie_row_a, tie_row_b]))"
    by blast
  then show ?thesis by (simp add: processData_def tie_rows)
qed

theorem ranking_reversal_counterexample:
  "canonical.engagement (process_row tie_row_a) = canonical.engagement (process_row tie_row_b) \<and>
   map canonical.brand (top5 [process_row tie_row_a, process_row tie_row_b])
     = [Str ''Acme'', Str ''Bolt''] \<and>
   map canonical.brand (top5 (rev [process_row tie_row_a, process_row tie_row_b]))
     = [Str ''Bolt'', Str ''Acme'']"
  by (simp add: top5_def js_sort_def by_engagement_desc_def tie_rows js_sub_def js_gt_def to_double_zero)

lemma num_Num: "map_of r key = Some (Num n) \<Longrightarrow> num r key = js_or n (Fin 0)"
  by (simp add: num_def js_or_def parseFloat_zero remove_all_def truthy_def)

lemma demo_dateKeys: "filter dateRegex (map fst (demo_row draws i)) = []"
  by (simp add: demo_row_def Let_def Delta_def dateRegex_def is_digit_def)

lemma demo_engagement:
  "canonical.engagement (process_row (demo_row draws i)) =
     js_or (random_int (draws (9 * i + 3)) 500000 50000) (Fin 0)"
proof -
  have "map_of (demo_row draws i) ''Total Engagement'' =
          Some (Num (random_int (draws (9 * i + 3)) 500000 50000))"
    by (simp add: demo_row_def Let_def)
  from num_Num [OF this] show ?thesis
    by (simp add: process_row_def totalEng_of_row_def Let_def demo_dateKeys)
qed

lemma demo_brand_type:
  "i < 7 \<Longrightarrow>
   canonical.brand (process_row (demo_row draws i)) = Str (demo_brands ! i) \<and>
   canonical.type (process_row (demo_row draws i)) = Str (demo_types ! i)"
proof -
  assume "i < 7"
  then have "i \<in> {0, 1, 2, 3, 4, 5, 6}" by auto
  then show ?thesis
    by (auto simp add: process_row_def Let_def demo_row_def demo_brands_def demo_types_def)
qed

lemma upt_7: "[0 ..< 7] = [0, 1, 2, 3, 4, 5, 6]"
  by (simp add: upt_rec)

lemma demo_load:
  "loadData Failed draws = map (\<lambda>i. process_row (demo_row draws i)) [0 ..< 7]"
  by (simp add: processData_def getDemoData_def)

lemma demo_load_brands: "map canonical.brand (loadData Failed draws) = map Str demo_brands"
  unfolding demo_load upt_7 using demo_brand_type [of _ draws]
  by (simp add: demo_brands_def)

lemma demo_load_types: "map canonical.type (loadData Failed draws) = map Str demo_types"
  unfolding demo_load upt_7 using demo_brand_type [of _ draws]
  by (simp add: demo_types_def)

lemma demo_load_engagement:
  "map canonical.engagement (loadData Failed draws) =
     map (\<lambda>i. js_or (random_int (draws (9 * i + 3)) 500000 50000) (Fin 0)) [0 ..< 7]"
  unfolding demo_load by (simp add: demo_engagement comp_def)

lemma demo_default_filter:
  "applyFilters demo_types demo_brands (loadData Failed draws) = loadData Failed draws"
proof -
  have "\<forall>d \<in> set (loadData Failed draws).
          includes_cell demo_types (canonical.type d) \<and> includes_cell demo_brands (canonical.brand d)"
    unfolding demo_load upt_7 using demo_brand_type [of _ draws]
    by (simp add: demo_brands_def demo_types_def)
  then show ?thesis by (simp add: applyFilters_def)
qed

lemma random_int_samples:
  "random_int 0 500000 50000 = Fin 50000"
  "random_int (1 / 2) 500000 50000 = Fin 300000"
  by (simp_all add: random_int_def double_eval)

text \<open>
  Claim C8, as amended. When the fetch fails, \<open>loadData\<close> of the long-layout dashboard
  processes the rows of \<open>getDemoData\<close>. These are seven records with fixed brands and
  types, all of them kept by the default filter (every type and brand selected); their
  metrics are drawn from \<open>Math.random\<close> at each load, the engagement being
  \<open>Math.floor(random * 500000) + 50000\<close>. The aggregate after a failed load is the
  aggregate of the rows generated at that load, and two failed loads need not agree.
\<close>

theorem fallback_demo_data_amended:
  "loadData Failed draws = processData (getDemoData draws) \<and>
   map canonical.brand (loadData Failed draws) = map Str demo_brands \<and>
   map canonical.type (loadData Failed draws) = map Str demo_types \<and>
   map canonical.engagement (loadData Failed draws) =
     map (\<lambda>i. js_or (random_int (draws (9 * i + 3)) 500000 50000) (Fin 0)) [0 ..< 7] \<and>
   applyFilters demo_types demo_brands (loadData Failed draws) = loadData Failed draws"
proof (intro conjI)
  show "loadData Failed draws = processData (getDemoData draws)" by simp
  show "map canonical.brand (loadData Failed draws) = map Str demo_brands"
    by (rule demo_load_brands)
  show "map canonical.type (loadData Failed draws) = map Str demo_types"
    by (rule demo_load_types)
  show "map canonical.engagement (loadData Failed draws) =
     map (\<lambda>i. js_or (random_int (draws (9 * i + 3)) 500000 50000) (Fin 0)) [0 ..< 7]"
    by (rule demo_load_engagement)
  show "applyFilters demo_types demo_brands (loadData Failed draws) = loadData Failed draws"
    by (rule demo_default_filter)
qed

theorem fallback_demo_data_amended_witness:
  "map canonical.brand (loadData Failed (\<lambda>k. 0)) =
     [Str ''Nustar'', Str ''Okada'', Str ''Solaire'', Str ''GCash'', Str ''Maya'',
      Str ''BingoPlus'', Str ''ArenaPlus''] \<and>
   map canonical.engagement (loadData Failed (\<lambda>k. 0)) = replicate 7 (Fin 50000) \<and>
   applyFilters demo_types demo_brands (loadData Failed (\<lambda>k. 0)) = loadData Failed (\<lambda>k. 0)"
proof -
  note t = fallback_demo_data_amended [of "\<lambda>k. 0"]
  from t have b: "map canonical.brand (loadData Failed (\<lambda>k. 0)) = map Str demo_brands"
    by blast
  from t have e: "map canonical.engagement (loadData Failed (\<lambda>k. 0)) =
     map (\<lambda>i. js_or (random_int 0 500000 50000) (Fin 0)) [0 ..< 7]"
    by blast
  from t have f: "applyFilters demo_types demo_brands (loadData Failed (\<lambda>k. 0))
      = loadData Failed (\<lambda>k. 0)"
    by blast
  have e': "map (\<lambda>i. js_or (random_int 0 500000 50000) (Fin 0)) [0 ..< 7] = replicate 7 (Fin 50000)"
    by (simp add: upt_7 random_int_samples js_or_def truthy_def numeral_eq_Suc)
  have b': "map Str demo_brands = [Str ''Nustar'', Str ''Okada'', Str ''Solaire'', Str ''GCash'',
      Str ''Maya'', Str ''BingoPlus'', Str ''ArenaPlus'']"
    by (simp add: demo_brands_def)
  from b e f show ?thesis unfolding e' b' by blast
qed

theorem fallback_not_deterministic_counterexample:
  "overview_totalEng (applyFilters demo_types demo_brands (loadData Failed (\<lambda>k. 0))) = Fin 350000 \<and>
   overview_totalEng (applyFilters demo_types demo_brands (loadData Failed (\<lambda>k. 1 / 2)))
     = Fin 2100000"
  unfolding demo_default_filter overview_totalEng_def reduce_sum_map demo_load_engagement
  by (simp add: upt_7 random_int_samples js_or_def truthy_def double_eval)

section \<open>Claims about numeric coercion\<close>

lemma digit_facts:
  "is_digit c \<Longrightarrow> \<not> is_space c \<and> c \<noteq> CHR ''-'' \<and> c \<noteq> CHR ''+'' \<and> c \<noteq> CHR ''I'' \<and>
     c \<noteq> CHR '','' \<and> c \<noteq> CHR ''%'' \<and> c \<noteq> CHR ''.'' \<and> digit_val c \<le> 9"
  by (auto simp add: is_digit_def is_space_def digit_val_def)

lemma foldl_digits_bound:
  "list_all is_digit ds \<Longrightarrow>
   foldl (\<lambda>a c. 10 * a + digit_val c) a ds < (a + 1) * 10 ^ length ds"
proof (induction ds arbitrary: a)
  case Nil
  show ?case by simp
next
  case (Cons c ds)
  then have d: "digit_val c \<le> 9" and ds: "list_all is_digit ds"
    by (simp_all add: digit_facts)
  have "foldl (\<lambda>a c. 10 * a + digit_val c) (10 * a + digit_val c) ds
          < (10 * a + digit_val c + 1) * 10 ^ length ds"
    by (rule Cons.IH [OF ds])
  also have "\<dots> \<le> (10 * (a + 1)) * 10 ^ length ds"
    using d by (intro mult_right_mono) simp_all
  finally show ?case by (simp add: algebra_simps)
qed

lemma digits_val_bound: "list_all is_digit ds \<Longrightarrow> digits_val ds < 10 ^ length ds"
  using foldl_digits_bound [of ds 0] by (simp add: digits_val_def)

lemma takeWhile_digits:
  assumes "list_all is_digit ds" "t = [] \<or> t = ''%''"
  shows "takeWhile is_digit (ds @ t) = ds \<and> dropWhile is_digit (ds @ t) = t"
proof -
  have a: "\<And>x. x \<in> set ds \<Longrightarrow> is_digit x"
    using assms(1) by (simp add: list_all_iff)
  have p: "\<not> is_digit CHR ''%''" by (simp add: is_digit_def)
  have 1: "takeWhile is_digit (ds @ t) = ds @ takeWhile is_digit t"
    using a by (simp add: takeWhile_append2)
  have 2: "dropWhile is_digit (ds @ t) = dropWhile is_digit t"
    using a by (simp add: dropWhile_append2)
  have 3: "takeWhile is_digit t = [] \<and> dropWhile is_digit t = t"
    using assms(2) p by auto
  from 1 2 3 show ?thesis by simp
qed

lemma unsigned_decimal_shape:
  "takeWhile is_digit (ds @ t) = ds \<Longrightarrow> dropWhile is_digit (ds @ t) = t \<Longrightarrow>
   \<not> (t \<noteq> [] \<and> hd t = CHR ''.'') \<Longrightarrow> take 8 (ds @ t) \<noteq> ''Infinity'' \<Longrightarrow> ds \<noteq> [] \<Longrightarrow>
   unsigned_decimal (ds @ t) =
     to_double ((real (digits_val ds) + real (digits_val []) / 10 ^ length ([] :: string))
                * pow10 (exponent_part t))"
  by (simp only: unsigned_decimal_def Let_def if_False simp_thms)

lemma unsigned_decimal_digits:
  assumes "list_all is_digit ds" "ds \<noteq> []" "t = [] \<or> t = ''%''"
  shows "unsigned_decimal (ds @ t) = to_double (real (digits_val ds))"
proof -
  obtain c ds' where ds: "ds = c # ds'" using assms(2) by (cases ds) auto
  with assms(1) have c: "is_digit c" by simp
  have inf: "take 8 (ds @ t) \<noteq> ''Infinity''"
    using digit_facts [OF c] by (auto simp add: ds)
  from takeWhile_digits [OF assms(1) assms(3)]
  have tw: "takeWhile is_digit (ds @ t) = ds" and dw: "dropWhile is_digit (ds @ t) = t"
    by simp_all
  have nd: "\<not> (t \<noteq> [] \<and> hd t = CHR ''.'')" using assms(3) by auto
  have e: "exponent_part t = 0" using assms(3) by (auto simp add: exponent_part_def)
  have "unsigned_decimal (ds @ t) =
          to_double ((real (digits_val ds) + real (digits_val []) / 10 ^ length ([] :: string))
                     * pow10 (exponent_part t))"
    by (rule unsigned_decimal_shape [OF tw dw nd inf assms(2)])
  then show ?thesis by (simp add: e pow10_def digits_val_def)
qed

lemma parseFloat_digits:
  assumes "list_all is_digit ds" "ds \<noteq> []" "t = [] \<or> t = ''%''"
  shows "parseFloat (ds @ t) = to_double (real (digits_val ds))"
proof -
  obtain c ds' where ds: "ds = c # ds'" using assms(2) by (cases ds) auto
  with assms(1) have c: "is_digit c" by simp
  have "parseFloat (ds @ t) = unsigned_decimal (ds @ t)"
    using digit_facts [OF c] by (simp add: parseFloat_def ds)
  then show ?thesis by (simp add: unsigned_decimal_digits [OF assms])
qed

lemma filter_digits_or_commas:
  "list_all (\<lambda>c. is_digit c \<or> c = CHR '','') b \<Longrightarrow> remove_all CHR '','' b = filter is_digit b"
  by (induction b) (auto simp add: remove_all_def digit_facts)

lemma remove_percent_digits:
  "list_all is_digit ds \<Longrightarrow> remove_all CHR ''%'' ds = ds \<and> remove_all CHR '','' ds = ds"
  by (induction ds) (auto simp add: remove_all_def digit_facts)

lemma numeric_parts:
  assumes "list_all (\<lambda>c. is_digit c \<or> c = CHR '','') b" "list_ex is_digit b" "t = [] \<or> t = ''%''"
  shows "remove_all CHR '','' (b @ t) = digits_of (b @ t) @ t \<and>
         remove_all CHR ''%'' (remove_all CHR '','' (b @ t)) = digits_of (b @ t) \<and>
         list_all is_digit (digits_of (b @ t)) \<and> digits_of (b @ t) \<noteq> [] \<and> b @ t \<noteq> []"
proof -
  have dt: "filter is_digit t = []" using assms(3) by (auto simp add: is_digit_def)
  have ct: "remove_all CHR '','' t = t" using assms(3) by (auto simp add: remove_all_def)
  have pt: "remove_all CHR ''%'' t = []" using assms(3) by (auto simp add: remove_all_def)
  have d: "digits_of (b @ t) = filter is_digit b" by (simp add: digits_of_def dt)
  have ne: "filter is_digit b \<noteq> []"
    using assms(2) by (simp add: list_ex_iff filter_empty_conv)
  have ad: "list_all is_digit (filter is_digit b)" by (simp add: list_all_iff)
  have c: "remove_all CHR '','' (b @ t) = filter is_digit b @ t"
    using filter_digits_or_commas [OF assms(1)] ct by (simp add: remove_all_def)
  have p: "remove_all CHR ''%'' (filter is_digit b @ t) = filter is_digit b"
    using remove_percent_digits [OF ad] pt by (simp add: remove_all_def)
  have "b \<noteq> []" using ne by auto
  then show ?thesis by (simp add: d c p ne ad)
qed

lemma numeric_string_split:
  assumes "numeric_string s"
  shows "\<exists>t. (t = [] \<or> t = ''%'') \<and> remove_all CHR '','' s = digits_of s @ t \<and>
             remove_all CHR ''%'' (remove_all CHR '','' s) = digits_of s \<and>
             list_all is_digit (digits_of s) \<and> digits_of s \<noteq> [] \<and> s \<noteq> []"
proof -
  define b where "b = strip_percent s"
  define t where "t = (if s \<noteq> [] \<and> last s = CHR ''%'' then ''%'' else [])"
  have s: "s = b @ t"
  proof (cases "s \<noteq> [] \<and> last s = CHR ''%''")
    case True
    then have e: "s = butlast s @ ''%''" by (metis append_butlast_last_id)
    have "b = butlast s" "t = ''%''" using True by (simp_all add: b_def t_def strip_percent_def)
    with e show ?thesis by metis
  next
    case False
    then show ?thesis by (auto simp add: b_def t_def strip_percent_def)
  qed
  have all: "list_all (\<lambda>c. is_digit c \<or> c = CHR '','') b" and ex: "list_ex is_digit b"
    using assms by (simp_all add: numeric_string_def b_def)
  have t: "t = [] \<or> t = ''%''" by (simp add: t_def)
  from numeric_parts [OF all ex t] t show ?thesis unfolding s [symmetric] by blast
qed

lemma num_Str:
  "map_of r key = Some (Str s) \<Longrightarrow> s \<noteq> [] \<Longrightarrow>
   num r key = js_or (parseFloat (remove_all CHR ''%'' (remove_all CHR '','' s))) (Fin 0)"
  by (simp add: num_def)

lemma num_empty: "map_of r key = Some (Str []) \<Longrightarrow> num r key = Fin 0"
  by (simp add: num_def parseFloat_zero remove_all_def js_or_def truthy_def)

lemma num_not_NaN: "num r key \<noteq> NaN"
  by (auto simp add: num_def js_or_def truthy_def split: cell.splits)

lemma js_or_zero_Fin: "js_or (Fin v) (Fin 0) = Fin v"
  by (simp add: js_or_def truthy_def)

lemma numeric_string_values:
  assumes "numeric_string s" "length (digits_of s) \<le> 308"
  shows "\<exists>v. 0 \<le> v \<and> to_double (real (digits_val (digits_of s))) = Fin v \<and>
             date_cell_value (Some s) = Fin v \<and>
             (\<forall>r key. map_of r key = Some (Str s) \<longrightarrow> num r key = Fin v)"
proof -
  from numeric_string_split [OF assms(1)] obtain t where
    t: "t = [] \<or> t = ''%''" and c: "remove_all CHR '','' s = digits_of s @ t"
    and p: "remove_all CHR ''%'' (remove_all CHR '','' s) = digits_of s"
    and ad: "list_all is_digit (digits_of s)" and ne: "digits_of s \<noteq> []" and sne: "s \<noteq> []"
    by blast
  have "digits_val (digits_of s) < 10 ^ length (digits_of s)"
    by (rule digits_val_bound [OF ad])
  also have "\<dots> \<le> 10 ^ 308"
    using assms(2) by (intro power_increasing) simp_all
  finally have "real (digits_val (digits_of s)) \<le> real (10 ^ 308)"
    by (simp only: of_nat_le_iff less_imp_le)
  then have "real (digits_val (digits_of s)) \<le> 10 ^ 308"
    by (simp only: of_nat_power of_nat_numeral)
  from to_double_finite [OF _ this] obtain v where
    v: "to_double (real (digits_val (digits_of s))) = Fin v" "0 \<le> v" by auto
  have w: "date_cell_value (Some s) = Fin v"
    using sne parseFloat_digits [OF ad ne t] by (simp add: date_cell_value_def c v)
  have l: "\<forall>r key. map_of r key = Some (Str s) \<longrightarrow> num r key = Fin v"
    using sne parseFloat_digits [OF ad ne, of "[]"] by (simp add: num_Str p v js_or_zero_Fin)
  from v w l show ?thesis by blast
qed
lemma date_cell_value_empty: "date_cell_value None = Fin 0 \<and> date_cell_value (Some []) = Fin 0"
  by (simp add: date_cell_value_def)

text \<open>
  Claim C2, as amended. The coercion \<open>num\<close> of the long-layout normalizer, which it
  applies to every numeric column and to the date column it falls back on, removes
  commas and percent signs, parses the rest as a float and gives \<open>0\<close> for an absent or
  empty cell and for a parse failure: it is never \<open>NaN\<close>. The wide-layout normalizer
  removes commas only and gives \<open>0\<close> for an absent or empty cell. On a numeric string
  (digits, thousands separators, an optional percent sign at the end) of at most 308
  digits the two agree, and the result is the double nearest to the number the digits
  spell: finite and not negative.
\<close>

theorem numeric_coercion_amended:
  "num r key \<noteq> NaN \<and>
   (map_of r key = None \<or> map_of r key = Some (Str []) \<longrightarrow> num r key = Fin 0) \<and>
   (s \<noteq> [] \<and> map_of r key = Some (Str s) \<longrightarrow>
      num r key = js_or (parseFloat (remove_all CHR ''%'' (remove_all CHR '','' s))) (Fin 0)) \<and>
   (\<exists>k. canonical.engagement (process_row r) = num r k) \<and>
   date_cell_value None = Fin 0 \<and> date_cell_value (Some []) = Fin 0 \<and>
   (numeric_string s \<and> length (digits_of s) \<le> 308 \<longrightarrow>
      (\<exists>v. 0 \<le> v \<and> to_double (real (digits_val (digits_of s))) = Fin v \<and>
           date_cell_value (Some s) = Fin v \<and>
           (map_of r key = Some (Str s) \<longrightarrow> num r key = Fin v)))"
proof (intro conjI impI)
  show "num r key \<noteq> NaN" by (rule num_not_NaN)
  show "num r key = Fin 0" if "map_of r key = None \<or> map_of r key = Some (Str [])"
    using that num_absent [of r key] num_empty [of r key] by blast
  show "num r key = js_or (parseFloat (remove_all CHR ''%'' (remove_all CHR '','' s))) (Fin 0)"
    if "s \<noteq> [] \<and> map_of r key = Some (Str s)"
    using that by (simp add: num_Str)
  show "\<exists>k. canonical.engagement (process_row r) = num r k"
    by (auto simp add: process_row_def totalEng_of_row_def Let_def)
  show "date_cell_value None = Fin 0" "date_cell_value (Some []) = Fin 0"
    by (simp_all add: date_cell_value_empty)
  show "\<exists>v. 0 \<le> v \<and> to_double (real (digits_val (digits_of s))) = Fin v \<and>
           date_cell_value (Some s) = Fin v \<and>
           (map_of r key = Some (Str s) \<longrightarrow> num r key = Fin v)"
    if "numeric_string s \<and> length (digits_of s) \<le> 308"
    using that numeric_string_values [of s] by blast
qed

lemma sample_numeric: "numeric_string ''1,234%'' \<and> digits_of ''1,234%'' = ''1234''"
  by (simp add: numeric_string_def strip_percent_def digits_of_def is_digit_def)

lemma sample_digits_val: "to_double (real (digits_val ''1234'')) = Fin 1234"
  by (simp add: digits_val_def digit_val_def double_eval)

theorem numeric_coercion_amended_witness:
  "numeric_string ''1,234%'' \<and>
   num [(''Total Engagement'', Str ''1,234%'')] ''Total Engagement'' = Fin 1234 \<and>
   date_cell_value (Some ''1,234%'') = Fin 1234 \<and>
   num [(''Total Engagement'', Str ''n/a'')] ''Total Engagement'' \<noteq> NaN"
proof -
  have h: "numeric_string ''1,234%'' \<and> length (digits_of ''1,234%'') \<le> 308"
    by (simp add: sample_numeric)
  have m: "map_of [(''Total Engagement'', Str ''1,234%'')] ''Total Engagement'' = Some (Str ''1,234%'')"
    by simp
  from numeric_coercion_amended [of "[(''Total Engagement'', Str ''1,234%'')]" "''Total Engagement''" "''1,234%''"] h m
  obtain v where "to_double (real (digits_val (digits_of ''1,234%''))) = Fin v"
    "date_cell_value (Some ''1,234%'') = Fin v"
    "num [(''Total Engagement'', Str ''1,234%'')] ''Total Engagement'' = Fin v"
    by blast
  then have a: "num [(''Total Engagement'', Str ''1,234%'')] ''Total Engagement'' = Fin 1234 \<and>
     date_cell_value (Some ''1,234%'') = Fin 1234"
    by (simp add: sample_numeric sample_digits_val)
  from numeric_coercion_amended [of "[(''Total Engagement'', Str ''n/a'')]" "''Total Engagement''" "''n/a''"]
  have b: "num [(''Total Engagement'', Str ''n/a'')] ''Total Engagement'' \<noteq> NaN"
    by blast
  from h a b show ?thesis by blast
qed

lemma foldl_digits_zeros:
  "foldl (\<lambda>a c. 10 * a + digit_val c) a (replicate n CHR ''0'') = a * 10 ^ n"
  by (induction n arbitrary: a) (simp_all add: digit_val_def)

lemma digits_val_one_zeros: "digits_val (CHR ''1'' # replicate n CHR ''0'') = 10 ^ n"
  by (simp add: digits_val_def foldl_digits_zeros) (simp add: digit_val_def)

lemma one_zeros_digits: "list_all is_digit (CHR ''1'' # replicate n CHR ''0'')"
  by (simp add: list_all_iff is_digit_def)

lemma one_zeros_numeric: "numeric_string (CHR ''1'' # replicate n CHR ''0'')"
proof -
  have "last (CHR ''1'' # replicate n CHR ''0'') \<noteq> CHR ''%''"
    by (cases n) simp_all
  then have "strip_percent (CHR ''1'' # replicate n CHR ''0'') = CHR ''1'' # replicate n CHR ''0''"
    by (simp add: strip_percent_def)
  then show ?thesis
    by (simp add: numeric_string_def list_all_iff is_digit_def)
qed

lemma num_one_zeros_309:
  "num [(''9-Nov'', Str (CHR ''1'' # replicate 309 CHR ''0''))] ''9-Nov'' = PInf"
proof -
  let ?ds = "CHR ''1'' # replicate 309 CHR ''0''"
  have "parseFloat (?ds @ []) = to_double (real (digits_val ?ds))"
    by (rule parseFloat_digits [OF one_zeros_digits]) simp_all
  also have "\<dots> = to_double (10 ^ 309)"
    by (simp only: digits_val_one_zeros of_nat_power of_nat_numeral)
  also have "\<dots> = PInf"
    by (rule to_double_overflow) simp
  finally have p: "parseFloat ?ds = PInf" by simp
  have r: "remove_all CHR ''%'' (remove_all CHR '','' ?ds) = ?ds"
    using remove_percent_digits [OF one_zeros_digits, of 309] by simp
  have "num [(''9-Nov'', Str ?ds)] ''9-Nov'' =
          js_or (parseFloat (remove_all CHR ''%'' (remove_all CHR '','' ?ds))) (Fin 0)"
    by (rule num_Str) simp_all
  then show ?thesis by (simp only: r p) (simp add: js_or_def truthy_def)
qed

lemma interior_percent:
  "date_cell_value (Some ''1%2'') = Fin 1"
  "num [(''9-Nov'', Str ''1%2'')] ''9-Nov'' = Fin 12"
  by (simp_all add: date_cell_value_def num_def parse_eval double_eval js_or_def truthy_def)

lemma wide_cell_parse_failure: "date_cell_value (Some ''n/a'') = NaN"
  by (simp add: date_cell_value_def parse_eval)

theorem numeric_coercion_counterexample:
  "date_cell_value (Some ''1%2'') = Fin 1 \<and>
   num [(''9-Nov'', Str ''1%2'')] ''9-Nov'' = Fin 12 \<and>
   numeric_string (CHR ''1'' # replicate 309 CHR ''0'') \<and>
   num [(''9-Nov'', Str (CHR ''1'' # replicate 309 CHR ''0''))] ''9-Nov'' = PInf"
  by (simp only: interior_percent one_zeros_numeric num_one_zeros_309 simp_thms)

end
